theory Spec2Isabelle
  imports Complex_Main
begin

section \<open>Walcord: placeholder rewriting over a colour palette\<close>

text \<open>
  A shallow embedding of \<^verbatim>\<open>src/main.py\<close>: the palette construction
  (\<^verbatim>\<open>hex_to_rgb_map\<close>), the colour transforms and formatters, the token resolver
  (\<^verbatim>\<open>remap_key\<close>), the regular-expression substitution (\<^verbatim>\<open>replace_key\<close>) and the
  line loop (\<^verbatim>\<open>try_replace_key_in_theme\<close>).

  Conventions of the model.
  \<^item> Text is a \<open>string\<close>: a list of characters with code points below 256, each
    \<open>char\<close> being one code point. Python's \<^verbatim>\<open>\w\<close>, \<^verbatim>\<open>\d\<close>, \<^verbatim>\<open>\s\<close>,
    \<^verbatim>\<open>str.lower\<close>, \<^verbatim>\<open>int\<close> and \<^verbatim>\<open>float\<close> are given on that range as Python defines
    them for Unicode text.
  \<^item> A raised exception is the \<open>Inl\<close> side of a sum; the handler of
    \<^verbatim>\<open>try_replace_key_in_theme\<close> catches every \<^verbatim>\<open>Exception\<close>, so only the kind is kept.
  \<^item> A Python float is a binary64 number, modelled by the rational number it is; each
    float operation rounds its exact result to binary64, and \<^verbatim>\<open>repr\<close> prints the
    shortest digit string that reads back.
  \<^item> Logging is a list of diagnostics returned next to the output text.
\<close>

subsection \<open>Exceptions\<close>

datatype error =
    UnknownKey string
  | InvalidOpacity
  | InvalidModifierArity
  | WallpaperModifierConflict
  | AttributeError
  | TypeError
  | IndexError
  | KeyError
  | ValueError

text \<open>
  \<open>UnknownKey\<close>: \<^verbatim>\<open>ValueError("Color '...' not found in the colors dictionary.")\<close>;
  \<open>InvalidOpacity\<close>: \<^verbatim>\<open>ValueError("Opacity value is not a valid: ...")\<close>;
  \<open>InvalidModifierArity\<close>: the \<^verbatim>\<open>ValueError\<close> raised by \<^verbatim>\<open>add_modificator\<close>,
  \<^verbatim>\<open>sub_modificator\<close> and \<^verbatim>\<open>invert_modificator\<close>;
  \<open>WallpaperModifierConflict\<close>: \<^verbatim>\<open>ValueError("You cant use opacity or modifier with wallpaper key.")\<close>;
  the others are the interpreter's own exceptions (\<open>ValueError\<close>: a failed \<^verbatim>\<open>int(...)\<close>,
  tuple unpacking or format code).
\<close>

subsection \<open>Characters and strings of the Python runtime\<close>

definition code :: "char \<Rightarrow> nat" where
  "code c = of_char c"

definition is_digit :: "char \<Rightarrow> bool" where
  "is_digit c = (48 \<le> code c \<and> code c \<le> 57)"

definition is_upper :: "char \<Rightarrow> bool" where
  "is_upper c = (65 \<le> code c \<and> code c \<le> 90)"

definition is_lower :: "char \<Rightarrow> bool" where
  "is_lower c = (97 \<le> code c \<and> code c \<le> 122)"

text \<open>The letters and numeric characters above the ASCII range: feminine and masculine
  ordinal, superscript digits, micro sign, the vulgar fractions, and the accented letters
  without the multiplication and division signs.\<close>

definition is_alnum_high :: "char \<Rightarrow> bool" where
  "is_alnum_high c =
     (code c \<in> {170, 178, 179, 181, 185, 186, 188, 189, 190}
      \<or> (192 \<le> code c \<and> code c \<le> 214)
      \<or> (216 \<le> code c \<and> code c \<le> 246)
      \<or> (248 \<le> code c \<and> code c \<le> 255))"

text \<open>The class \<^verbatim>\<open>\w\<close> of the \<^verbatim>\<open>re\<close> module.\<close>

definition is_word :: "char \<Rightarrow> bool" where
  "is_word c = (is_digit c \<or> is_upper c \<or> is_lower c \<or> c = CHR ''_'' \<or> is_alnum_high c)"

text \<open>The class \<^verbatim>\<open>\s\<close> of the \<^verbatim>\<open>re\<close> module.\<close>

definition is_space :: "char \<Rightarrow> bool" where
  "is_space c =
     ((9 \<le> code c \<and> code c \<le> 13) \<or> (28 \<le> code c \<and> code c \<le> 32)
      \<or> code c = 133 \<or> code c = 160)"

text \<open>\<^verbatim>\<open>str.lower\<close> on one character: the ASCII capitals and the accented capitals
  192 to 222 without the multiplication sign 215.\<close>

definition lower_char :: "char \<Rightarrow> char" where
  "lower_char c =
     (if is_upper c \<or> (192 \<le> code c \<and> code c \<le> 222 \<and> code c \<noteq> 215)
      then char_of (code c + 32) else c)"

definition lower :: "string \<Rightarrow> string" where
  "lower s = map lower_char s"

definition digit_char :: "nat \<Rightarrow> char" where
  "digit_char n = ''0123456789abcdef'' ! n"

function str_nat :: "nat \<Rightarrow> string" where
  "str_nat n = (if n < 10 then [digit_char n] else str_nat (n div 10) @ [digit_char (n mod 10)])"
  by pat_completeness auto
termination
  by (relation "measure id") auto

declare str_nat.simps [simp del]

definition str_int :: "int \<Rightarrow> string" where
  "str_int i = (if i < 0 then CHR ''-'' # str_nat (nat (- i)) else str_nat (nat i))"

function hex_nat :: "nat \<Rightarrow> string" where
  "hex_nat n = (if n < 16 then [digit_char n] else hex_nat (n div 16) @ [digit_char (n mod 16)])"
  by pat_completeness auto
termination
  by (relation "measure id") auto

declare hex_nat.simps [simp del]

text \<open>The format specification \<^verbatim>\<open>:02x\<close> on an \<^verbatim>\<open>int\<close>: lowercase hexadecimal, padded with
  zeros to width two, the sign counting towards the width.\<close>

definition fmt_02x :: "int \<Rightarrow> string" where
  "fmt_02x i =
     (if i < 0 then CHR ''-'' # hex_nat (nat (- i))
      else if i < 16 then CHR ''0'' # hex_nat (nat i)
      else hex_nat (nat i))"

definition digit_val :: "char \<Rightarrow> nat option" where
  "digit_val c =
     (if is_digit c then Some (code c - 48)
      else if 97 \<le> code c \<and> code c \<le> 102 then Some (code c - 87)
      else if 65 \<le> code c \<and> code c \<le> 70 then Some (code c - 55)
      else None)"

fun digits_val :: "nat \<Rightarrow> int \<Rightarrow> string \<Rightarrow> int option" where
  "digits_val b acc [] = Some acc"
| "digits_val b acc (c # cs) =
     (case digit_val c of
        None \<Rightarrow> None
      | Some d \<Rightarrow> if d < b then digits_val b (acc * int b + int d) cs else None)"

text \<open>The whitespace that \<^verbatim>\<open>int\<close> and \<^verbatim>\<open>float\<close> skip around a literal.\<close>

definition is_blank :: "char \<Rightarrow> bool" where
  "is_blank c = ((9 \<le> code c \<and> code c \<le> 13) \<or> code c = 32 \<or> code c = 133 \<or> code c = 160)"

definition strip :: "string \<Rightarrow> string" where
  "strip s = rev (dropWhile is_blank (rev (dropWhile is_blank s)))"

text \<open>
  \<^verbatim>\<open>int(s, base)\<close> for base 10 and 16: surrounding whitespace, an optional sign, then a
  non-empty run of digits; \<open>None\<close> is the \<^verbatim>\<open>ValueError\<close>. The base prefix \<^verbatim>\<open>0x\<close> and
  the digit separator \<^verbatim>\<open>_\<close> are left out: a valid literal using either has at least three
  characters, the slices that \<^verbatim>\<open>hex_to_rgb_map\<close> converts have at most two, and the arguments
  that \<^verbatim>\<open>replace_key\<close> hands to the modifier parsers are matched by \<^verbatim>\<open>\d\<close>.
\<close>

definition py_int :: "nat \<Rightarrow> string \<Rightarrow> int option" where
  "py_int b s =
     (let t = strip s;
          neg = (t \<noteq> [] \<and> hd t = CHR ''-'');
          u = (if t \<noteq> [] \<and> (hd t = CHR ''-'' \<or> hd t = CHR ''+'') then tl t else t)
      in if u = [] then None
         else (case digits_val b 0 u of
                 None \<Rightarrow> None
               | Some n \<Rightarrow> Some (if neg then - n else n)))"

text \<open>\<^verbatim>\<open>s.split(",")\<close>: the pieces between commas; the empty string gives one empty piece.\<close>

fun split_comma :: "string \<Rightarrow> string list" where
  "split_comma [] = [[]]"
| "split_comma (c # cs) =
     (if c = CHR '','' then [] # split_comma cs
      else (case split_comma cs of [] \<Rightarrow> [[c]] | p # ps \<Rightarrow> (c # p) # ps))"

subsection \<open>Floating point\<close>

text \<open>
  A Python float is a binary64 number. A finite one is modelled by the rational number it
  is, and every operation of the program on floats is the exact operation followed by
  \<open>round64\<close>, rounding to the nearest binary64 number, ties to the even significand, with
  the subnormal spacing \<open>2 ^ - 1074\<close> below the normal range. A result beyond the
  largest finite binary64 number, which Python represents by \<^verbatim>\<open>inf\<close>, is kept as the
  rounded rational: the program only compares such a value with \<^verbatim>\<open>100\<close>.
\<close>

function bit_length :: "int \<Rightarrow> int" where
  "bit_length n = (if n \<le> 0 then 0 else 1 + bit_length (n div 2))"
  by pat_completeness auto
termination
  by (relation "measure nat") auto

declare bit_length.simps [simp del]

function dec_length :: "int \<Rightarrow> int" where
  "dec_length n = (if n \<le> 0 then 0 else 1 + dec_length (n div 10))"
  by pat_completeness auto
termination
  by (relation "measure nat") auto

declare dec_length.simps [simp del]

text \<open>The decimal digits of a non-negative integer.\<close>

function dec_digits :: "int \<Rightarrow> string" where
  "dec_digits n =
     (if n < 10 then [digit_char (nat n)]
      else dec_digits (n div 10) @ [digit_char (nat (n mod 10))])"
  by pat_completeness auto
termination
  by (relation "measure nat") auto

declare dec_digits.simps [simp del]

definition pow :: "int \<Rightarrow> int \<Rightarrow> rat" where
  "pow b e = (if 0 \<le> e then of_int (b ^ nat e) else 1 / of_int (b ^ nat (- e)))"

text \<open>The largest \<open>e\<close> with \<open>2 ^ e \<le> q\<close>, and with \<open>10 ^ e \<le> q\<close>, for \<open>q > 0\<close>.\<close>

definition floor_log2 :: "rat \<Rightarrow> int" where
  "floor_log2 q =
     (let (n, d) = quotient_of q;
          a = bit_length n - bit_length d
      in if pow 2 a \<le> q then a else a - 1)"

definition floor_log10 :: "rat \<Rightarrow> int" where
  "floor_log10 q =
     (let (n, d) = quotient_of q;
          a = dec_length n - dec_length d
      in if pow 10 a \<le> q then a else a - 1)"

definition round_half_even :: "rat \<Rightarrow> int" where
  "round_half_even q =
     (let f = \<lfloor>q\<rfloor>; r = q - of_int f
      in if r < 1 / 2 then f
         else if 1 / 2 < r then f + 1
         else if even f then f else f + 1)"

definition round64 :: "rat \<Rightarrow> rat" where
  "round64 q =
     (if q = 0 then 0
      else (let a = \<bar>q\<bar>;
                e = max (floor_log2 a - 52) (- 1074);
                v = of_int (round_half_even (a / pow 2 e)) * pow 2 e
            in if q < 0 then - v else v))"

text \<open>
  \<^verbatim>\<open>float(s)\<close> on a decimal literal: an optional sign, digits, and an optional fraction;
  the value is the literal's, correctly rounded. \<open>None\<close> is the \<^verbatim>\<open>ValueError\<close>.
  The regular expression of \<^verbatim>\<open>replace_key\<close> only delivers the unsigned form
  \<^verbatim>\<open>\d+(\.\d+)?\<close>; exponents, \<^verbatim>\<open>inf\<close>, \<^verbatim>\<open>nan\<close> and digit separators are left out.
\<close>

definition py_float :: "string \<Rightarrow> rat option" where
  "py_float s =
     (let t = strip s;
          neg = (t \<noteq> [] \<and> hd t = CHR ''-'');
          u = (if t \<noteq> [] \<and> (hd t = CHR ''-'' \<or> hd t = CHR ''+'') then tl t else t);
          ip = takeWhile is_digit u;
          rest = dropWhile is_digit u;
          fp = (if rest \<noteq> [] \<and> hd rest = CHR ''.'' then tl rest else [])
      in if ip = [] \<or> (rest \<noteq> [] \<and> (hd rest \<noteq> CHR ''.'' \<or> fp = [])) \<or> \<not> list_all is_digit fp
         then None
         else (case (digits_val 10 0 ip, digits_val 10 0 fp) of
                 (Some a, Some f) \<Rightarrow>
                   (let v = round64 (of_int a + of_int f / of_int (10 ^ length fp))
                    in Some (if neg then - v else v))
               | _ \<Rightarrow> None))"

text \<open>The float operations the program uses.\<close>

definition fadd :: "rat \<Rightarrow> rat \<Rightarrow> rat" where
  "fadd x y = round64 (x + y)"

definition fsub :: "rat \<Rightarrow> rat \<Rightarrow> rat" where
  "fsub x y = round64 (x - y)"

definition fdiv :: "rat \<Rightarrow> rat \<Rightarrow> rat" where
  "fdiv x y = round64 (x / y)"

text \<open>
  \<^verbatim>\<open>repr\<close> of a float, which is also what an f-string field prints: the shortest decimal
  digit string that \<^verbatim>\<open>float\<close> reads back as the same number, the nearest to it among
  those; positional notation with at least one fractional digit when the decimal point
  falls within \<open>- 3 .. 16\<close> of the first digit, exponent notation otherwise.

  \<open>shortest k n q\<close> tries \<open>n, n + 1, \<dots>\<close> significant digits (\<open>k\<close> more lengths to try)
  and returns the digits as an integer \<open>c\<close> with the exponent \<open>p\<close> of the last digit:
  the decimal is \<open>c * 10 ^ p\<close>. Seventeen digits always read back.
\<close>

fun shortest :: "nat \<Rightarrow> int \<Rightarrow> rat \<Rightarrow> int \<times> int" where
  "shortest 0 n q = (round_half_even (q / pow 10 (floor_log10 q - n + 1)), floor_log10 q - n + 1)"
| "shortest (Suc k) n q =
     (let p = floor_log10 q - n + 1;
          c = \<lfloor>q / pow 10 p\<rfloor>;
          ok = filter (\<lambda>x. round64 (of_int x * pow 10 p) = q) [c, c + 1]
      in case ok of
           [] \<Rightarrow> shortest k (n + 1) q
         | [x] \<Rightarrow> (x, p)
         | x # y # _ \<Rightarrow> if q - of_int x * pow 10 p \<le> of_int y * pow 10 p - q then (x, p) else (y, p))"

function strip_zeros :: "int \<times> int \<Rightarrow> int \<times> int" where
  "strip_zeros (c, p) = (if 0 < c \<and> c mod 10 = 0 then strip_zeros (c div 10, p + 1) else (c, p))"
  by pat_completeness auto
termination
  by (relation "measure (\<lambda>(c, p). nat c)") auto

declare strip_zeros.simps [simp del]

definition float_repr :: "rat \<Rightarrow> string" where
  "float_repr q =
     (if q = 0 then ''0.0''
      else (let (c, p) = strip_zeros (shortest 16 1 \<bar>q\<bar>);
                ds = dec_digits c;
                n = int (length ds);
                decpt = p + n;
                sign = (if q < 0 then ''-'' else [])
            in if - 4 < decpt \<and> decpt \<le> 16
               then sign @
                 (if decpt \<le> 0 then ''0.'' @ replicate (nat (- decpt)) (CHR ''0'') @ ds
                  else if n \<le> decpt then ds @ replicate (nat (decpt - n)) (CHR ''0'') @ ''.0''
                  else take (nat decpt) ds @ ''.'' @ drop (nat decpt) ds)
               else sign @ take 1 ds @ (if 1 < n then ''.'' @ drop 1 ds else [])
                 @ ''e'' @ (if decpt - 1 < 0 then ''-'' else ''+'')
                 @ (if \<bar>decpt - 1\<bar> < 10 then ''0'' else []) @ dec_digits \<bar>decpt - 1\<bar>))"

subsection \<open>Palette values and the second modifier\<close>

text \<open>
  A palette value is what \<^verbatim>\<open>hex_to_rgb_map\<close> stores: a tuple of integers, or, for the
  wallpaper keys, the path string itself.
\<close>

datatype pval = Tuple "int list" | Str string

text \<open>The dictionary \<^verbatim>\<open>{"pos": ..., "mod": ..., "type": ...}\<close>.\<close>

record scond_mod =
  pos :: int
  mod' :: int
  type' :: "string option"

definition default_scond_mod :: scond_mod where
  "default_scond_mod = \<lparr>pos = 0, mod' = 0, type' = None\<rparr>"

definition and_then :: "error + 'a \<Rightarrow> ('a \<Rightarrow> error + 'b) \<Rightarrow> error + 'b" where
  "and_then r f = (case r of Inl e \<Rightarrow> Inl e | Inr x \<Rightarrow> f x)"

text \<open>Python indexing of a sequence of length \<open>n\<close>: a negative index counts from the end.\<close>

definition py_index :: "nat \<Rightarrow> int \<Rightarrow> error + nat" where
  "py_index n i =
     (let j = (if i < 0 then int n + i else i)
      in if 0 \<le> j \<and> j < int n then Inr (nat j) else Inl IndexError)"

text \<open>
  \<^verbatim>\<open>color = list(color); color[pos] += value; return tuple(color)\<close>.
  On a string the element is read first (\<open>IndexError\<close>) and the addition of an integer
  to it then fails (\<open>TypeError\<close>).
\<close>

definition add_to_color_tuple :: "pval \<Rightarrow> int \<Rightarrow> int \<Rightarrow> error + pval" where
  "add_to_color_tuple color v p =
     (case color of
        Tuple xs \<Rightarrow> and_then (py_index (length xs) p) (\<lambda>j. Inr (Tuple (xs[j := xs ! j + v])))
      | Str s \<Rightarrow> and_then (py_index (length s) p) (\<lambda>j. Inl TypeError))"

definition invert_color :: "pval \<Rightarrow> error + pval" where
  "invert_color color =
     (case color of
        Tuple xs \<Rightarrow> Inr (Tuple (map (\<lambda>i. 255 - i) xs))
      | Str s \<Rightarrow> if s = [] then Inr (Tuple []) else Inl TypeError)"

definition check_and_apply_second_modificator :: "pval \<Rightarrow> scond_mod \<Rightarrow> error + pval" where
  "check_and_apply_second_modificator color_tuple sm =
     (if type' sm = Some ''add'' \<or> type' sm = Some ''sub''
      then add_to_color_tuple color_tuple (mod' sm) (pos sm)
      else if type' sm = Some ''invert'' then invert_color color_tuple
      else Inr color_tuple)"

subsection \<open>Colour space conversion\<close>

text \<open>
  \<^verbatim>\<open>colorsys.rgb_to_hls\<close> of the standard library (Python 3.11); the result is
  \<open>(h, l, s)\<close>, lightness in the middle. \<open>fmod1\<close> is \<^verbatim>\<open>x % 1.0\<close>: the remainder of the
  truncating division, moved up by one when it is negative.
\<close>

definition fmod1 :: "rat \<Rightarrow> rat" where
  "fmod1 x =
     (let m = x - of_int (if x < 0 then \<lceil>x\<rceil> else \<lfloor>x\<rfloor>)
      in if m < 0 then fadd m 1 else m)"

definition colorsys_rgb_to_hls :: "rat \<Rightarrow> rat \<Rightarrow> rat \<Rightarrow> rat \<times> rat \<times> rat" where
  "colorsys_rgb_to_hls r g b =
     (let maxc = max r (max g b);
          minc = min r (min g b);
          sumc = fadd maxc minc;
          rangec = fsub maxc minc;
          l = fdiv sumc 2
      in if minc = maxc then (0, l, 0)
         else
           (let s = (if l \<le> 1 / 2 then fdiv rangec sumc
                     else fdiv rangec (fsub (fsub 2 maxc) minc));
                rc = fdiv (fsub maxc r) rangec;
                gc = fdiv (fsub maxc g) rangec;
                bc = fdiv (fsub maxc b) rangec;
                h = (if r = maxc then fsub bc gc
                     else if g = maxc then fsub (fadd 2 rc) bc
                     else fsub (fadd 4 gc) rc)
            in (fmod1 (fdiv h 6), l, s)))"

text \<open>\<^verbatim>\<open>r, g, b = color\<close> needs exactly three elements; dividing a character by
  \<^verbatim>\<open>255.0\<close> is a \<open>TypeError\<close>.\<close>

definition rgb_to_hls :: "pval \<Rightarrow> error + rat \<times> rat \<times> rat" where
  "rgb_to_hls color =
     (case color of
        Tuple xs \<Rightarrow>
          (case xs of
             [r, g, b] \<Rightarrow>
               Inr (colorsys_rgb_to_hls (fdiv (of_int r) 255) (fdiv (of_int g) 255)
                      (fdiv (of_int b) 255))
           | _ \<Rightarrow> Inl ValueError)
      | Str s \<Rightarrow> if length s = 3 then Inl TypeError else Inl ValueError)"

subsection \<open>First modifiers: the formatters\<close>

text \<open>The replacement fields \<^verbatim>\<open>{color_tuple[i]}\<close> and \<^verbatim>\<open>{color_tuple[i]:02x}\<close>.\<close>

definition item_str :: "pval \<Rightarrow> nat \<Rightarrow> error + string" where
  "item_str v i =
     (case v of
        Tuple xs \<Rightarrow> if i < length xs then Inr (str_int (xs ! i)) else Inl IndexError
      | Str s \<Rightarrow> if i < length s then Inr [s ! i] else Inl IndexError)"

definition item_02x :: "pval \<Rightarrow> nat \<Rightarrow> error + string" where
  "item_02x v i =
     (case v of
        Tuple xs \<Rightarrow> if i < length xs then Inr (fmt_02x (xs ! i)) else Inl IndexError
      | Str s \<Rightarrow> if i < length s then Inl ValueError else Inl IndexError)"

type_synonym formatter = "pval \<Rightarrow> rat \<Rightarrow> scond_mod \<Rightarrow> error + string"

definition return_rgba_string :: formatter where
  "return_rgba_string color_tuple opacity sm =
     and_then (check_and_apply_second_modificator color_tuple sm) (\<lambda>c.
     and_then (item_str c 0) (\<lambda>r.
     and_then (item_str c 1) (\<lambda>g.
     and_then (item_str c 2) (\<lambda>b.
       Inr (''rgba('' @ r @ '','' @ g @ '','' @ b @ '','' @ float_repr opacity @ '')'')))))"

definition return_rgb_string :: formatter where
  "return_rgb_string color_tuple opacity sm =
     and_then (check_and_apply_second_modificator color_tuple sm) (\<lambda>c.
     and_then (item_str c 0) (\<lambda>r.
     and_then (item_str c 1) (\<lambda>g.
     and_then (item_str c 2) (\<lambda>b.
       Inr (''rgb('' @ r @ '','' @ g @ '','' @ b @ '')'')))))"

definition return_values_string :: formatter where
  "return_values_string color_tuple opacity sm =
     and_then (check_and_apply_second_modificator color_tuple sm) (\<lambda>c.
     and_then (item_str c 0) (\<lambda>r.
     and_then (item_str c 1) (\<lambda>g.
     and_then (item_str c 2) (\<lambda>b.
       Inr (r @ '','' @ g @ '','' @ b @ '','' @ float_repr opacity)))))"

definition return_values_without_opacity_string :: formatter where
  "return_values_without_opacity_string color_tuple opacity sm =
     and_then (check_and_apply_second_modificator color_tuple sm) (\<lambda>c.
     and_then (item_str c 0) (\<lambda>r.
     and_then (item_str c 1) (\<lambda>g.
     and_then (item_str c 2) (\<lambda>b.
       Inr (r @ '','' @ g @ '','' @ b)))))"

definition return_red_string :: formatter where
  "return_red_string color_tuple opacity sm =
     and_then (check_and_apply_second_modificator color_tuple sm) (\<lambda>c. item_str c 0)"

definition return_green_string :: formatter where
  "return_green_string color_tuple opacity sm =
     and_then (check_and_apply_second_modificator color_tuple sm) (\<lambda>c. item_str c 1)"

definition return_blue_string :: formatter where
  "return_blue_string color_tuple opacity sm =
     and_then (check_and_apply_second_modificator color_tuple sm) (\<lambda>c. item_str c 2)"

definition return_opacity_string :: formatter where
  "return_opacity_string color_tuple opacity sm =
     and_then (check_and_apply_second_modificator color_tuple sm) (\<lambda>c. Inr (float_repr opacity))"

definition return_hex_string :: formatter where
  "return_hex_string color_tuple opacity sm =
     and_then (check_and_apply_second_modificator color_tuple sm) (\<lambda>c.
     and_then (item_02x c 0) (\<lambda>r.
     and_then (item_02x c 1) (\<lambda>g.
     and_then (item_02x c 2) (\<lambda>b.
       Inr (''#'' @ r @ g @ b)))))"

definition return_hex_values_string :: formatter where
  "return_hex_values_string color_tuple opacity sm =
     and_then (check_and_apply_second_modificator color_tuple sm) (\<lambda>c.
     and_then (item_02x c 0) (\<lambda>r.
     and_then (item_02x c 1) (\<lambda>g.
     and_then (item_02x c 2) (\<lambda>b.
       Inr (r @ g @ b)))))"

text \<open>
  The five HLS formatters call
  \<^verbatim>\<open>check_and_apply_second_modificator(rgb_to_hls(color_tuple))\<close>: the argument is
  evaluated, and the call then lacks the required parameter \<^verbatim>\<open>scond_mod\<close>, which is a
  \<open>TypeError\<close> before the body runs. The \<open>return\<close> statement after it is never reached.
\<close>

definition call_without_scond_mod :: "rat \<times> rat \<times> rat \<Rightarrow> error + rat \<times> rat \<times> rat" where
  "call_without_scond_mod hls = Inl TypeError"

definition return_hsl_string :: formatter where
  "return_hsl_string color_tuple opacity sm =
     and_then (rgb_to_hls color_tuple) (\<lambda>t.
     and_then (call_without_scond_mod t) (\<lambda>(h, l, s).
       Inr (''hsl('' @ float_repr h @ '','' @ float_repr l @ '','' @ float_repr s @ '')'')))"

definition return_h_from_hsl_string :: formatter where
  "return_h_from_hsl_string color_tuple opacity sm =
     and_then (rgb_to_hls color_tuple) (\<lambda>t.
     and_then (call_without_scond_mod t) (\<lambda>(h, l, s). Inr (float_repr h)))"

definition return_s_from_hsl_string :: formatter where
  "return_s_from_hsl_string color_tuple opacity sm =
     and_then (rgb_to_hls color_tuple) (\<lambda>t.
     and_then (call_without_scond_mod t) (\<lambda>(h, l, s). Inr (float_repr s)))"

definition return_l_from_hsl_string :: formatter where
  "return_l_from_hsl_string color_tuple opacity sm =
     and_then (rgb_to_hls color_tuple) (\<lambda>t.
     and_then (call_without_scond_mod t) (\<lambda>(h, l, s). Inr (float_repr l)))"

definition return_hsl_values_string :: formatter where
  "return_hsl_values_string color_tuple opacity sm =
     and_then (rgb_to_hls color_tuple) (\<lambda>t.
     and_then (call_without_scond_mod t) (\<lambda>(h, l, s).
       Inr (float_repr h @ '','' @ float_repr l @ '','' @ float_repr s)))"

definition FIRST_MODIFIERS :: "string \<rightharpoonup> formatter" where
  "FIRST_MODIFIERS = map_of
     [(''DEFAULT'', return_rgba_string),
      (''.rgba'', return_rgba_string),
      (''.rgb'', return_rgb_string),
      (''.hex'', return_hex_string),
      (''.hsl'', return_hsl_string),
      (''.rgba_values'', return_values_string),
      (''.rgb_values'', return_values_without_opacity_string),
      (''.hex_values'', return_hex_values_string),
      (''.hsl_values'', return_hsl_values_string),
      (''.r'', return_red_string),
      (''.red'', return_red_string),
      (''.g'', return_green_string),
      (''.green'', return_green_string),
      (''.b'', return_blue_string),
      (''.blue'', return_blue_string),
      (''.o'', return_opacity_string),
      (''.opacity'', return_opacity_string),
      (''.h'', return_h_from_hsl_string),
      (''.hue'', return_h_from_hsl_string),
      (''.s'', return_s_from_hsl_string),
      (''.saturation'', return_s_from_hsl_string),
      (''.l'', return_l_from_hsl_string),
      (''.lightness'', return_l_from_hsl_string)]"

subsection \<open>Second modifiers: the argument parsers\<close>

text \<open>\<^verbatim>\<open>params.replace(" ","").replace("(", "").replace(")", "").split(",")\<close>;
  \<open>params\<close> is \<^verbatim>\<open>match.group(5)\<close>, which is \<^verbatim>\<open>None\<close> when the token has no argument list,
  and \<^verbatim>\<open>None.replace\<close> is an \<open>AttributeError\<close>.\<close>

definition split_params :: "string \<Rightarrow> string list" where
  "split_params params =
     split_comma (filter (\<lambda>c. c \<noteq> CHR '')'')
       (filter (\<lambda>c. c \<noteq> CHR ''('') (filter (\<lambda>c. c \<noteq> CHR '' '') params)))"

definition int_arg :: "string \<Rightarrow> error + int" where
  "int_arg s = (case py_int 10 s of None \<Rightarrow> Inl ValueError | Some i \<Rightarrow> Inr i)"

definition add_modificator :: "string option \<Rightarrow> error + scond_mod" where
  "add_modificator params =
     (case params of
        None \<Rightarrow> Inl AttributeError
      | Some ps \<Rightarrow>
          (let p = split_params ps
           in if length p < 2 \<or> length p > 2 then Inl InvalidModifierArity
              else and_then (int_arg (p ! 0)) (\<lambda>a.
                   and_then (int_arg (p ! 1)) (\<lambda>b.
                     Inr \<lparr>pos = a, mod' = b, type' = Some ''add''\<rparr>))))"

definition sub_modificator :: "string option \<Rightarrow> error + scond_mod" where
  "sub_modificator params =
     (case params of
        None \<Rightarrow> Inl AttributeError
      | Some ps \<Rightarrow>
          (let p = split_params ps
           in if length p < 2 \<or> length p > 2 then Inl InvalidModifierArity
              else and_then (int_arg (p ! 0)) (\<lambda>a.
                   and_then (int_arg (p ! 1)) (\<lambda>b.
                     Inr \<lparr>pos = a, mod' = - 1 * b, type' = Some ''sub''\<rparr>))))"

definition invert_modificator :: "string option \<Rightarrow> error + scond_mod" where
  "invert_modificator params =
     (case params of
        None \<Rightarrow> Inr \<lparr>pos = 0, mod' = 0, type' = Some ''invert''\<rparr>
      | Some ps \<Rightarrow>
          if ps \<noteq> [] then Inl InvalidModifierArity
          else Inr \<lparr>pos = 0, mod' = 0, type' = Some ''invert''\<rparr>)"

definition SECOND_MODIFIERS :: "string \<rightharpoonup> (string option \<Rightarrow> error + scond_mod)" where
  "SECOND_MODIFIERS = map_of
     [(''.add'', add_modificator),
      (''.sub'', sub_modificator),
      (''.invert'', invert_modificator),
      (''.a'', add_modificator),
      (''.s'', sub_modificator),
      (''.i'', invert_modificator)]"

subsection \<open>The palette\<close>

type_synonym palette = "string \<rightharpoonup> pval"

text \<open>
  \<^verbatim>\<open>tuple(int(colors[color].lstrip('#')[i:i+2], 16) for i in (0, 2, 4))\<close>; \<open>None\<close> is the
  \<^verbatim>\<open>ValueError\<close> of a slice that is not a hexadecimal literal.
\<close>

definition hex_triple :: "string \<Rightarrow> int list option" where
  "hex_triple s =
     (let h = dropWhile (\<lambda>c. c = CHR ''#'') s
      in case py_int 16 (take 2 h) of
           None \<Rightarrow> None
         | Some r \<Rightarrow>
             (case py_int 16 (take 2 (drop 2 h)) of
                None \<Rightarrow> None
              | Some g \<Rightarrow>
                  (case py_int 16 (take 2 (drop 4 h)) of
                     None \<Rightarrow> None
                   | Some b \<Rightarrow> Some [r, g, b])))"

text \<open>An entry that is not a colour is kept as a string under the wallpaper keys and
  skipped (with a warning) under any other key.\<close>

definition hex_to_rgb_map :: "(string \<rightharpoonup> string) \<Rightarrow> palette" where
  "hex_to_rgb_map colors color =
     (case colors color of
        None \<Rightarrow> None
      | Some s \<Rightarrow>
          (case hex_triple s of
             Some t \<Rightarrow> Some (Tuple t)
           | None \<Rightarrow>
               if color = ''wallpaper'' \<or> color = ''w'' then Some (Str s) else None))"

text \<open>Truth value of a palette value, as \<^verbatim>\<open>if not first_arg_values\<close> tests it.\<close>

definition truthy :: "pval \<Rightarrow> bool" where
  "truthy v = (case v of Tuple xs \<Rightarrow> xs \<noteq> [] | Str s \<Rightarrow> s \<noteq> [])"

subsection \<open>Resolving one token\<close>

text \<open>A match object: the five groups of the pattern of \<^verbatim>\<open>replace_key\<close>; \<open>None\<close> is a
  group that did not take part in the match.\<close>

record match =
  group1 :: "string option"
  group2 :: "string option"
  group3 :: "string option"
  group4 :: "string option"
  group5 :: "string option"

definition no_groups :: match where
  "no_groups = \<lparr>group1 = None, group2 = None, group3 = None, group4 = None, group5 = None\<rparr>"

definition set_group :: "nat \<Rightarrow> string \<Rightarrow> match \<Rightarrow> match" where
  "set_group n v m =
     (if n = 1 then m\<lparr>group1 := Some v\<rparr>
      else if n = 2 then m\<lparr>group2 := Some v\<rparr>
      else if n = 3 then m\<lparr>group3 := Some v\<rparr>
      else if n = 4 then m\<lparr>group4 := Some v\<rparr>
      else if n = 5 then m\<lparr>group5 := Some v\<rparr>
      else m)"

text \<open>\<^verbatim>\<open>x if x else None\<close> on an optional string.\<close>

definition present :: "string option \<Rightarrow> string option" where
  "present x = (case x of None \<Rightarrow> None | Some s \<Rightarrow> if s = [] then None else Some s)"

text \<open>
  The \<^verbatim>\<open>try\<close> block of \<^verbatim>\<open>remap_key\<close>. Each \<^verbatim>\<open>raise\<close> inside it, and a
  \<^verbatim>\<open>float\<close> that fails, reaches \<^verbatim>\<open>except Exception\<close>, which assigns \<^verbatim>\<open>opacity = 1.0\<close>
  and raises again: the exception leaves \<^verbatim>\<open>remap_key\<close>.
\<close>

definition normalize_opacity :: "string option \<Rightarrow> error + rat" where
  "normalize_opacity g2 =
     (let second_arg = (case present g2 of Some s \<Rightarrow> s | None \<Rightarrow> ''1.0'')
      in case py_float second_arg of
           None \<Rightarrow> Inl InvalidOpacity
         | Some v \<Rightarrow>
             if v < 0 then Inl InvalidOpacity
             else if v > 1 \<and> v \<le> 100 then Inr (fdiv v 100)
             else if v > 100 then Inl InvalidOpacity
             else Inr v)"

text \<open>\<^verbatim>\<open>re.sub(r'[0-9,]', '', second_modifer.replace("(", "").replace(")", "")).replace(" ", "")\<close>\<close>

definition modifier_name :: "string \<Rightarrow> string" where
  "modifier_name s =
     filter (\<lambda>c. c \<noteq> CHR '' '')
       (filter (\<lambda>c. \<not> (is_digit c \<or> c = CHR '',''))
         (filter (\<lambda>c. c \<noteq> CHR '')'') (filter (\<lambda>c. c \<noteq> CHR ''('') s)))"

definition default_formatter :: "pval \<Rightarrow> rat \<Rightarrow> error + string" where
  "default_formatter first_arg_values opacity =
     (case FIRST_MODIFIERS ''DEFAULT'' of
        None \<Rightarrow> Inl KeyError
      | Some f \<Rightarrow> f first_arg_values opacity default_scond_mod)"

text \<open>
  The second modifier of a match (the part of \<^verbatim>\<open>remap_key\<close> from
  \<^verbatim>\<open>second_modifer\<close> to \<^verbatim>\<open>second_modifer_params\<close>): the default dictionary, unless the
  name left after removing parentheses, digits, commas and spaces is a key of
  \<^verbatim>\<open>SECOND_MODIFIERS\<close>, whose parser then receives \<^verbatim>\<open>match.group(5)\<close>.
\<close>

definition parse_second_modifier :: "match \<Rightarrow> error + scond_mod" where
  "parse_second_modifier m =
     (let second_modifer = map_option lower (present (group4 m));
          second_modifer_name = map_option modifier_name second_modifer;
          second_modifer_raw_params = group5 m
      in case second_modifer_name of
           None \<Rightarrow> Inr default_scond_mod
         | Some nm \<Rightarrow>
             (case SECOND_MODIFIERS nm of
                None \<Rightarrow> Inr default_scond_mod
              | Some parser \<Rightarrow> parser second_modifer_raw_params))"

definition remap_key :: "palette \<Rightarrow> match \<Rightarrow> error + string" where
  "remap_key colors m =
     (case group1 m of
        None \<Rightarrow> Inl AttributeError
      | Some k \<Rightarrow>
         (let first_arg = lower k
          in case colors first_arg of
               None \<Rightarrow> Inl (UnknownKey first_arg)
             | Some first_arg_values \<Rightarrow>
                 if \<not> truthy first_arg_values then Inl (UnknownKey first_arg)
                 else
                   and_then (normalize_opacity (group2 m)) (\<lambda>opacity.
                     (let first_modifier = map_option lower (present (group3 m))
                      in and_then (parse_second_modifier m) (\<lambda>second_modifer_params.
                           if (first_arg = ''wallpaper'' \<or> first_arg = ''w'')
                              \<and> (opacity \<noteq> 1 \<or> first_modifier \<noteq> None)
                           then Inl WallpaperModifierConflict
                           else
                             (case first_modifier of
                                None \<Rightarrow> default_formatter first_arg_values opacity
                              | Some fm \<Rightarrow>
                                  (case FIRST_MODIFIERS fm of
                                     None \<Rightarrow> default_formatter first_arg_values opacity
                                   | Some f \<Rightarrow>
                                       f first_arg_values opacity second_modifer_params)))))))"

subsection \<open>Regular expressions\<close>

text \<open>
  The two patterns of the program use literals (compared without case under
  \<^verbatim>\<open>re.IGNORECASE\<close>), greedy runs of one character class, greedy options, concatenation and
  capture groups. The matcher returns every way to match a prefix, as the pairs of the
  remaining text and the groups, in the order in which a backtracking matcher tries them;
  the head of the list is the match Python reports.
\<close>

datatype cclass = Word | Digit | Space | NotClose

datatype regex =
    Eps
  | Lit char
  | Many cclass
  | Many1 cclass
  | Cat regex regex
  | Opt regex
  | Grp nat regex

fun in_class :: "cclass \<Rightarrow> char \<Rightarrow> bool" where
  "in_class Word c = is_word c"
| "in_class Digit c = is_digit c"
| "in_class Space c = is_space c"
| "in_class NotClose c = (c \<noteq> CHR '')'')"

text \<open>The texts left after a greedy run of class \<open>k\<close>: longest run first, the empty run last.\<close>

fun many :: "cclass \<Rightarrow> string \<Rightarrow> string list" where
  "many k [] = [[]]"
| "many k (c # cs) = (if in_class k c then many k cs @ [c # cs] else [c # cs])"

fun rmatch :: "regex \<Rightarrow> string \<times> match \<Rightarrow> (string \<times> match) list" where
  "rmatch Eps st = [st]"
| "rmatch (Lit c) (s, g) =
     (case s of
        [] \<Rightarrow> []
      | x # xs \<Rightarrow> if lower_char x = lower_char c then [(xs, g)] else [])"
| "rmatch (Many k) (s, g) = map (\<lambda>r. (r, g)) (many k s)"
| "rmatch (Many1 k) (s, g) = map (\<lambda>r. (r, g)) (butlast (many k s))"
| "rmatch (Cat a b) st = concat (map (rmatch b) (rmatch a st))"
| "rmatch (Opt a) st = rmatch a st @ [st]"
| "rmatch (Grp n a) (s, g) =
     map (\<lambda>(r, g'). (r, set_group n (take (length s - length r) s) g')) (rmatch a (s, g))"

definition cat :: "regex list \<Rightarrow> regex" where
  "cat rs = foldr Cat rs Eps"

definition match_at :: "regex \<Rightarrow> string \<Rightarrow> (string \<times> match) option" where
  "match_at re s = (case rmatch re (s, no_groups) of [] \<Rightarrow> None | st # _ \<Rightarrow> Some st)"

text \<open>\<^verbatim>\<open>bool(re.search(re, s))\<close>: a match starting at some position of \<open>s\<close>.\<close>

fun re_search :: "regex \<Rightarrow> string \<Rightarrow> bool" where
  "re_search re [] = (match_at re [] \<noteq> None)"
| "re_search re (c # cs) = (match_at re (c # cs) \<noteq> None \<or> re_search re cs)"

text \<open>
  \<^verbatim>\<open>re.sub(re, repl, s)\<close> with a function \<open>repl\<close>: the leftmost match is replaced by the
  result of \<open>repl\<close> and the scan goes on behind it; a character where nothing matches is
  copied. An exception of \<open>repl\<close> ends the substitution. An empty match is replaced and
  the scan moves one character on.
\<close>

function re_sub :: "regex \<Rightarrow> (match \<Rightarrow> error + string) \<Rightarrow> string \<Rightarrow> error + string" where
  "re_sub re repl s =
     (case match_at re s of
        None \<Rightarrow>
          (case s of
             [] \<Rightarrow> Inr []
           | c # cs \<Rightarrow> (case re_sub re repl cs of Inl e \<Rightarrow> Inl e | Inr u \<Rightarrow> Inr (c # u)))
      | Some (r, g) \<Rightarrow>
          (case repl g of
             Inl e \<Rightarrow> Inl e
           | Inr t \<Rightarrow>
               if length r < length s
               then (case re_sub re repl r of Inl e \<Rightarrow> Inl e | Inr u \<Rightarrow> Inr (t @ u))
               else (case s of
                       [] \<Rightarrow> Inr t
                     | c # cs \<Rightarrow>
                         (case re_sub re repl cs of Inl e \<Rightarrow> Inl e | Inr u \<Rightarrow> Inr (t @ c # u)))))"
  by pat_completeness auto
termination
  by (relation "measure (\<lambda>(re, repl, s). length s)") auto

declare re_sub.simps [simp del]

text \<open>\<^verbatim>\<open>\d+(?:\.\d+)?\<close>\<close>

definition number :: regex where
  "number = cat [Many1 Digit, Opt (cat [Lit (CHR ''.''), Many1 Digit])]"

text \<open>\<^verbatim>\<open>KEY\((\w+)(?:,\s*(\d+(?:\.\d+)?))?\)(\.\w+)?(\.\w+(\(\d+(?:\.\d+)?(?:,\s*\d+(?:\.\d+)?)?\))?)?\<close>\<close>

definition KEY_PATTERN :: regex where
  "KEY_PATTERN = cat
     [Lit (CHR ''K''), Lit (CHR ''E''), Lit (CHR ''Y''), Lit (CHR ''(''),
      Grp 1 (Many1 Word),
      Opt (cat [Lit (CHR '',''), Many Space, Grp 2 number]),
      Lit (CHR '')''),
      Opt (Grp 3 (cat [Lit (CHR ''.''), Many1 Word])),
      Opt (Grp 4 (cat
        [Lit (CHR ''.''), Many1 Word,
         Opt (Grp 5 (cat
           [Lit (CHR ''(''), number,
            Opt (cat [Lit (CHR '',''), Many Space, number]),
            Lit (CHR '')'')]))]))]"

text \<open>\<^verbatim>\<open>KEY\([^)]*\)\<close>\<close>

definition SEARCH_PATTERN :: regex where
  "SEARCH_PATTERN = cat
     [Lit (CHR ''K''), Lit (CHR ''E''), Lit (CHR ''Y''), Lit (CHR ''(''),
      Many NotClose, Lit (CHR '')'')]"

text \<open>
  The matches that \<^verbatim>\<open>re.sub\<close> visits in a text, from left to right (what
  \<^verbatim>\<open>re.finditer\<close> yields): the tokens of a line.
\<close>

function tokens :: "regex \<Rightarrow> string \<Rightarrow> match list" where
  "tokens re s =
     (case match_at re s of
        None \<Rightarrow> (case s of [] \<Rightarrow> [] | c # cs \<Rightarrow> tokens re cs)
      | Some (r, g) \<Rightarrow>
          g # (if length r < length s then tokens re r
               else (case s of [] \<Rightarrow> [] | c # cs \<Rightarrow> tokens re cs)))"
  by pat_completeness auto
termination
  by (relation "measure (\<lambda>(re, s). length s)") auto

declare tokens.simps [simp del]

text \<open>A pattern that cannot consume a closing parenthesis.\<close>

fun no_close :: "regex \<Rightarrow> bool" where
  "no_close Eps = True"
| "no_close (Lit c) = (lower_char c \<noteq> CHR '')'')"
| "no_close (Many k) = (\<not> in_class k (CHR '')''))"
| "no_close (Many1 k) = (\<not> in_class k (CHR '')''))"
| "no_close (Cat a b) = (no_close a \<and> no_close b)"
| "no_close (Opt a) = no_close a"
| "no_close (Grp n a) = no_close a"

definition replace_key :: "palette \<Rightarrow> string \<Rightarrow> error + string" where
  "replace_key colors text = re_sub KEY_PATTERN (remap_key colors) text"

subsection \<open>The line loop\<close>

text \<open>A diagnostic carries the 1-based line number and the source label
  (\<^verbatim>\<open>"in line {n+1} in {filename}"\<close>); an error also carries the exception.\<close>

datatype diag = Warning nat string | Error nat string error

text \<open>The body of the \<^verbatim>\<open>for\<close> loop, on the pair of the output and the diagnostics.\<close>

definition line_step :: "palette \<Rightarrow> string \<Rightarrow> string \<Rightarrow> nat \<times> string
    \<Rightarrow> string \<times> diag list \<Rightarrow> string \<times> diag list" where
  "line_step colors filename end' ni st =
     (case ni of (n, i) \<Rightarrow> case st of (output, diags) \<Rightarrow>
        if re_search SEARCH_PATTERN i
        then (case replace_key colors i of
                Inr t \<Rightarrow>
                  (let new_line = t @ end'
                   in (output @ new_line,
                       if new_line = i @ end' then diags @ [Warning (n + 1) filename] else diags))
              | Inl e \<Rightarrow> (output, diags @ [Error (n + 1) filename e]))
        else (output @ i @ end', diags))"

definition try_replace_key_in_theme :: "palette \<Rightarrow> string list \<Rightarrow> string \<Rightarrow> string
    \<Rightarrow> string \<times> diag list" where
  "try_replace_key_in_theme colors lines filename end' =
     fold (line_step colors filename end') (enumerate 0 lines) ([], [])"

text \<open>What one line adds to the output and to the diagnostics; the loop is the
  concatenation of these (\<open>fold_line_step\<close> below).\<close>

definition line_output :: "palette \<Rightarrow> string \<Rightarrow> string \<Rightarrow> string" where
  "line_output colors end' i =
     (if re_search SEARCH_PATTERN i
      then (case replace_key colors i of Inr t \<Rightarrow> t @ end' | Inl e \<Rightarrow> [])
      else i @ end')"

definition line_diags :: "palette \<Rightarrow> string \<Rightarrow> string \<Rightarrow> nat \<Rightarrow> string \<Rightarrow> diag list" where
  "line_diags colors filename end' n i =
     (if re_search SEARCH_PATTERN i
      then (case replace_key colors i of
              Inr t \<Rightarrow> if t @ end' = i @ end' then [Warning (n + 1) filename] else []
            | Inl e \<Rightarrow> [Error (n + 1) filename e])
      else [])"

section \<open>Properties\<close>

subsection \<open>Hexadecimal formatting and parsing\<close>

lemma less_16_cases:
  "d < 16 \<Longrightarrow> d = 0 \<or> d = 1 \<or> d = 2 \<or> d = 3 \<or> d = 4 \<or> d = 5 \<or> d = 6 \<or> d = 7
     \<or> d = 8 \<or> d = 9 \<or> d = 10 \<or> d = 11 \<or> d = 12 \<or> d = 13 \<or> d = 14 \<or> d = (15::nat)"
  by arith

lemma digit_char_facts:
  assumes "d < 16"
  shows "digit_val (digit_char d) = Some d" and "\<not> is_blank (digit_char d)"
    and "digit_char d \<noteq> CHR ''-''" and "digit_char d \<noteq> CHR ''+''" and "digit_char d \<noteq> CHR ''#''"
  using less_16_cases [OF assms]
  by (auto simp: digit_char_def digit_val_def is_digit_def is_blank_def code_def)

lemma py_int_two_digits:
  assumes "a < 16" and "b < 16"
  shows "py_int 16 [digit_char a, digit_char b] = Some (int (a * 16 + b))"
  using digit_char_facts [OF assms(1)] digit_char_facts [OF assms(2)] assms
  by (simp add: py_int_def strip_def Let_def)

lemma digit_char_0: "digit_char 0 = CHR ''0''"
  by (simp add: digit_char_def)

lemma fmt_02x_byte:
  assumes "0 \<le> i" and "i \<le> 255"
  shows "fmt_02x i = [digit_char (nat i div 16), digit_char (nat i mod 16)]"
proof (cases "i < 16")
  case True
  then have "nat i < 16" using assms by simp
  then show ?thesis using True assms
    by (simp add: fmt_02x_def hex_nat.simps [of "nat i"] digit_char_0)
next
  case False
  then have a: "\<not> nat i < 16" and b: "nat i div 16 < 16" using assms by simp_all
  show ?thesis using False assms a b
    by (simp add: fmt_02x_def hex_nat.simps [of "nat i"] hex_nat.simps [of "nat i div 16"])
qed

lemma py_int_fmt_02x:
  assumes "0 \<le> i" and "i \<le> 255"
  shows "py_int 16 (fmt_02x i) = Some i"
proof -
  have a: "nat i div 16 < 16" and b: "nat i mod 16 < 16" using assms by simp_all
  have "int (nat i div 16 * 16 + nat i mod 16) = i" using assms by simp
  then show ?thesis
    using py_int_two_digits [OF a b] fmt_02x_byte [OF assms] by simp
qed

lemma length_fmt_02x:
  "0 \<le> i \<Longrightarrow> i \<le> 255 \<Longrightarrow> length (fmt_02x i) = 2"
  by (simp add: fmt_02x_byte)

lemma hex_triple_fmt:
  assumes "0 \<le> r \<and> r \<le> 255" and "0 \<le> g \<and> g \<le> 255" and "0 \<le> b \<and> b \<le> 255"
  shows "hex_triple (''#'' @ fmt_02x r @ fmt_02x g @ fmt_02x b) = Some [r, g, b]"
proof -
  have "nat r div 16 < 16" using assms(1) by auto
  then have nh: "hd (fmt_02x r) \<noteq> CHR ''#''"
    using assms(1) digit_char_facts(5) [of "nat r div 16"] by (simp add: fmt_02x_byte)
  have ne: "fmt_02x r \<noteq> []" using assms(1) by (simp add: fmt_02x_byte)
  have dw: "dropWhile (\<lambda>c. c = CHR ''#'') (''#'' @ fmt_02x r @ fmt_02x g @ fmt_02x b)
            = fmt_02x r @ fmt_02x g @ fmt_02x b"
    using nh ne by (cases "fmt_02x r") simp_all
  show ?thesis
    unfolding hex_triple_def dw Let_def
    using assms by (simp add: length_fmt_02x py_int_fmt_02x)
qed

text \<open>
  Claim C7. For every colour whose three channels lie in \<open>[0, 255]\<close>, the hex
  formatter produces \<open>#rrggbb\<close> (two lowercase hexadecimal digits per channel), and
  the palette's hex-to-RGB parser maps that string back to the same triple.
\<close>

theorem hex_round_trip:
  assumes "0 \<le> r \<and> r \<le> 255" and "0 \<le> g \<and> g \<le> 255" and "0 \<le> b \<and> b \<le> 255"
  shows "\<exists>h. return_hex_string (Tuple [r, g, b]) opacity default_scond_mod = Inr h
           \<and> h = ''#'' @ fmt_02x r @ fmt_02x g @ fmt_02x b
           \<and> hex_to_rgb_map (colors(k \<mapsto> h)) k = Some (Tuple [r, g, b])"
  using hex_triple_fmt [OF assms]
  by (simp add: return_hex_string_def check_and_apply_second_modificator_def
      default_scond_mod_def and_then_def item_02x_def hex_to_rgb_map_def)

theorem hex_round_trip_witness:
  "return_hex_string (Tuple [0, 128, 255]) 1 default_scond_mod = Inr ''#0080ff''
   \<and> hex_to_rgb_map [''a'' \<mapsto> ''#0080ff''] ''a'' = Some (Tuple [0, 128, 255])"
proof -
  have h: "return_hex_string (Tuple [0, 128, 255]) 1 default_scond_mod = Inr ''#0080ff''"
    by code_simp
  from hex_round_trip [of 0 128 255 1 Map.empty "''a''"]
  obtain h' where "return_hex_string (Tuple [0, 128, 255]) 1 default_scond_mod = Inr h'"
    and "hex_to_rgb_map [''a'' \<mapsto> h'] ''a'' = Some (Tuple [0, 128, 255])"
    by auto
  with h show ?thesis by simp
qed

subsection \<open>The second modifier\<close>

text \<open>
  Claim C8. For every RGB triple with all channels in \<open>[0, 255]\<close>, applying the invert
  second modifier twice gives the triple back.
\<close>

theorem invert_twice_restores:
  assumes "0 \<le> r \<and> r \<le> 255" and "0 \<le> g \<and> g \<le> 255" and "0 \<le> b \<and> b \<le> 255"
    and "invert_modificator None = Inr sm"
  shows "and_then (check_and_apply_second_modificator (Tuple [r, g, b]) sm)
           (\<lambda>c. check_and_apply_second_modificator c sm) = Inr (Tuple [r, g, b])"
  using assms(4)
  by (auto simp: invert_modificator_def check_and_apply_second_modificator_def
      invert_color_def and_then_def)

theorem invert_twice_restores_witness:
  "and_then (check_and_apply_second_modificator (Tuple [10, 20, 255])
        \<lparr>pos = 0, mod' = 0, type' = Some ''invert''\<rparr>)
     (\<lambda>c. check_and_apply_second_modificator c \<lparr>pos = 0, mod' = 0, type' = Some ''invert''\<rparr>)
   = Inr (Tuple [10, 20, 255])
   \<and> check_and_apply_second_modificator (Tuple [10, 20, 255])
        \<lparr>pos = 0, mod' = 0, type' = Some ''invert''\<rparr> = Inr (Tuple [245, 235, 0])"
proof -
  have sm: "invert_modificator None = Inr \<lparr>pos = 0, mod' = 0, type' = Some ''invert''\<rparr>"
    by (simp add: invert_modificator_def)
  have "and_then (check_and_apply_second_modificator (Tuple [10, 20, 255])
        \<lparr>pos = 0, mod' = 0, type' = Some ''invert''\<rparr>)
     (\<lambda>c. check_and_apply_second_modificator c \<lparr>pos = 0, mod' = 0, type' = Some ''invert''\<rparr>)
   = Inr (Tuple [10, 20, 255])"
    using invert_twice_restores [of 10 20 255, OF _ _ _ sm] by simp
  moreover have "check_and_apply_second_modificator (Tuple [10, 20, 255])
        \<lparr>pos = 0, mod' = 0, type' = Some ''invert''\<rparr> = Inr (Tuple [245, 235, 0])"
    by (simp add: check_and_apply_second_modificator_def invert_color_def)
  ultimately show ?thesis by simp
qed

lemma modificators_same_params:
  assumes "add_modificator ps = Inr a" and "sub_modificator ps = Inr s"
  shows "type' a = Some ''add'' \<and> type' s = Some ''sub'' \<and> pos s = pos a \<and> mod' s = - mod' a"
  using assms
  by (auto simp: add_modificator_def sub_modificator_def and_then_def Let_def
      split: option.splits if_splits sum.splits)

text \<open>
  Claim C9. For every RGB triple and every argument text that both \<open>add\<close> and \<open>sub\<close>
  accept with a channel position in \<open>0..2\<close>, applying the add modifier adds the delta to
  that channel without clamping, and applying the sub modifier of the same arguments
  afterwards restores the triple.
\<close>

theorem add_then_sub_restores:
  assumes "add_modificator ps = Inr a" and "sub_modificator ps = Inr s"
    and "0 \<le> pos a" and "pos a < 3"
  shows "check_and_apply_second_modificator (Tuple [r, g, b]) a
           = Inr (Tuple ([r, g, b][nat (pos a) := [r, g, b] ! nat (pos a) + mod' a]))
         \<and> and_then (check_and_apply_second_modificator (Tuple [r, g, b]) a)
             (\<lambda>c. check_and_apply_second_modificator c s) = Inr (Tuple [r, g, b])"
proof -
  from modificators_same_params [OF assms(1,2)]
  have t: "type' a = Some ''add''" "type' s = Some ''sub''" "pos s = pos a" "mod' s = - mod' a"
    by simp_all
  from assms(3,4) have "nat (pos a) = 0 \<or> nat (pos a) = 1 \<or> nat (pos a) = 2" by arith
  then show ?thesis
    using t assms(3,4)
    by (auto simp: check_and_apply_second_modificator_def add_to_color_tuple_def py_index_def
        and_then_def)
qed

theorem add_then_sub_restores_witness:
  "add_modificator (Some ''(1,300)'') = Inr \<lparr>pos = 1, mod' = 300, type' = Some ''add''\<rparr>
   \<and> sub_modificator (Some ''(1,300)'') = Inr \<lparr>pos = 1, mod' = - 300, type' = Some ''sub''\<rparr>
   \<and> check_and_apply_second_modificator (Tuple [10, 20, 30])
         \<lparr>pos = 1, mod' = 300, type' = Some ''add''\<rparr> = Inr (Tuple [10, 320, 30])
   \<and> and_then (check_and_apply_second_modificator (Tuple [10, 20, 30])
         \<lparr>pos = 1, mod' = 300, type' = Some ''add''\<rparr>)
        (\<lambda>c. check_and_apply_second_modificator c \<lparr>pos = 1, mod' = - 300, type' = Some ''sub''\<rparr>)
       = Inr (Tuple [10, 20, 30])"
proof -
  have a: "add_modificator (Some ''(1,300)'') = Inr \<lparr>pos = 1, mod' = 300, type' = Some ''add''\<rparr>"
    by code_simp
  have s: "sub_modificator (Some ''(1,300)'') = Inr \<lparr>pos = 1, mod' = - 300, type' = Some ''sub''\<rparr>"
    by code_simp
  have c1: "check_and_apply_second_modificator (Tuple [10, 20, 30])
         \<lparr>pos = 1, mod' = 300, type' = Some ''add''\<rparr> = Inr (Tuple [10, 320, 30])"
    using add_then_sub_restores [OF a s, of 10 20 30, THEN conjunct1] by simp
  have c2: "and_then (check_and_apply_second_modificator (Tuple [10, 20, 30])
         \<lparr>pos = 1, mod' = 300, type' = Some ''add''\<rparr>)
        (\<lambda>c. check_and_apply_second_modificator c \<lparr>pos = 1, mod' = - 300, type' = Some ''sub''\<rparr>)
       = Inr (Tuple [10, 20, 30])"
    using add_then_sub_restores [OF a s, of 10 20 30, THEN conjunct2] by simp
  from a s c1 c2 show ?thesis by blast
qed

subsection \<open>The line loop\<close>

lemma line_step_eq:
  "line_step colors filename end' (n, i) (out, dg)
     = (out @ line_output colors end' i, dg @ line_diags colors filename end' n i)"
  by (simp add: line_step_def line_output_def line_diags_def Let_def split: sum.splits)

lemma fold_line_step:
  "fold (line_step colors filename end') (enumerate n ls) (out, dg)
     = (out @ concat (map (line_output colors end') ls),
        dg @ concat (map (\<lambda>(k, i). line_diags colors filename end' k i) (enumerate n ls)))"
proof (induction ls arbitrary: n out dg)
  case Nil
  then show ?case by simp
next
  case (Cons l ls)
  show ?case
    by (simp add: line_step_eq Cons.IH)
qed

lemma output_concat:
  "fst (try_replace_key_in_theme colors ls filename end')
     = concat (map (line_output colors end') ls)"
  by (simp add: try_replace_key_in_theme_def fold_line_step)

lemma diags_concat:
  "snd (try_replace_key_in_theme colors ls filename end')
     = concat (map (\<lambda>(k, i). line_diags colors filename end' k i) (enumerate 0 ls))"
  by (simp add: try_replace_key_in_theme_def fold_line_step)

text \<open>
  Claim C4. Lines are processed independently and in order: the output for a sequence of
  lines is the output for any initial part followed by the output for the rest, and it is
  the concatenation, in input order, of what each line gives when processed alone; the
  diagnostics are, in input order, those the loop body gives for each numbered line on
  its own. A line that fails changes nothing of this.
\<close>

theorem lines_independent:
  "fst (try_replace_key_in_theme colors (xs @ ys) filename end')
     = fst (try_replace_key_in_theme colors xs filename end')
       @ fst (try_replace_key_in_theme colors ys filename end')
   \<and> fst (try_replace_key_in_theme colors ls filename end')
     = concat (map (\<lambda>l. fst (try_replace_key_in_theme colors [l] filename end')) ls)
   \<and> snd (try_replace_key_in_theme colors ls filename end')
     = concat (map (\<lambda>ni. snd (line_step colors filename end' ni ([], []))) (enumerate 0 ls))"
proof -
  have "(\<lambda>ni. snd (line_step colors filename end' ni ([], [])))
          = (\<lambda>(k, i). line_diags colors filename end' k i)"
    by (auto simp: fun_eq_iff line_step_eq)
  then show ?thesis
    by (simp add: output_concat diags_concat)
qed

theorem lines_independent_witness:
  "fst (try_replace_key_in_theme [''a'' \<mapsto> Tuple [10, 20, 30]]
          ([''x: KEY(a).rgb;'', ''y: KEY(unknown).rgb;''] @ [''z: KEY(a).hex;'']) ''t.css'' ''|'')
     = ''x: rgb(10,20,30);|'' @ ''z: #0a141e;|''
   \<and> fst (try_replace_key_in_theme [''a'' \<mapsto> Tuple [10, 20, 30]]
          [''x: KEY(a).rgb;'', ''y: KEY(unknown).rgb;''] ''t.css'' ''|'') = ''x: rgb(10,20,30);|''
   \<and> fst (try_replace_key_in_theme [''a'' \<mapsto> Tuple [10, 20, 30]]
          [''z: KEY(a).hex;''] ''t.css'' ''|'') = ''z: #0a141e;|''"
proof -
  have 1: "fst (try_replace_key_in_theme [''a'' \<mapsto> Tuple [10, 20, 30]]
          [''x: KEY(a).rgb;'', ''y: KEY(unknown).rgb;''] ''t.css'' ''|'') = ''x: rgb(10,20,30);|''"
    by code_simp
  have 2: "fst (try_replace_key_in_theme [''a'' \<mapsto> Tuple [10, 20, 30]]
          [''z: KEY(a).hex;''] ''t.css'' ''|'') = ''z: #0a141e;|''"
    by code_simp
  from lines_independent [of "[''a'' \<mapsto> Tuple [10, 20, 30]]"
      "[''x: KEY(a).rgb;'', ''y: KEY(unknown).rgb;'']" "[''z: KEY(a).hex;'']" "''t.css''" "''|''"]
  have "fst (try_replace_key_in_theme [''a'' \<mapsto> Tuple [10, 20, 30]]
          ([''x: KEY(a).rgb;'', ''y: KEY(unknown).rgb;''] @ [''z: KEY(a).hex;'']) ''t.css'' ''|'')
     = fst (try_replace_key_in_theme [''a'' \<mapsto> Tuple [10, 20, 30]]
          [''x: KEY(a).rgb;'', ''y: KEY(unknown).rgb;''] ''t.css'' ''|'')
       @ fst (try_replace_key_in_theme [''a'' \<mapsto> Tuple [10, 20, 30]]
          [''z: KEY(a).hex;''] ''t.css'' ''|'')"
    by (rule conjunct1)
  with 1 2 show ?thesis by simp
qed

text \<open>
  Claim C1, as the code has it. For every input line that contains token syntax and whose
  resolution fails, the rewriter records an error with the 1-based line number, the
  source label and the failure, and the line contributes nothing to the output: the text
  is that of the lines before it followed by that of the lines after it.
\<close>

theorem failed_line_is_dropped:
  assumes "re_search SEARCH_PATTERN l" and "replace_key colors l = Inl e"
  shows "Error (length xs + 1) filename e
           \<in> set (snd (try_replace_key_in_theme colors (xs @ l # ys) filename end'))
         \<and> fst (try_replace_key_in_theme colors (xs @ l # ys) filename end')
           = fst (try_replace_key_in_theme colors xs filename end')
             @ fst (try_replace_key_in_theme colors ys filename end')"
proof -
  have "line_output colors end' l = []" using assms by (simp add: line_output_def)
  then have out: "fst (try_replace_key_in_theme colors (xs @ l # ys) filename end')
           = fst (try_replace_key_in_theme colors xs filename end')
             @ fst (try_replace_key_in_theme colors ys filename end')"
    by (simp add: output_concat)
  have ld: "line_diags colors filename end' (length xs) l = [Error (length xs + 1) filename e]"
    using assms by (simp add: line_diags_def)
  have "snd (try_replace_key_in_theme colors (xs @ l # ys) filename end')
          = concat (map (\<lambda>(k, i). line_diags colors filename end' k i) (enumerate 0 xs))
            @ line_diags colors filename end' (length xs) l
            @ concat (map (\<lambda>(k, i). line_diags colors filename end' k i)
                (enumerate (Suc (length xs)) ys))"
    unfolding diags_concat by (simp add: enumerate_append_eq)
  then have "Error (length xs + 1) filename e
           \<in> set (snd (try_replace_key_in_theme colors (xs @ l # ys) filename end'))"
    using ld by simp
  with out show ?thesis by simp
qed

theorem failed_line_is_dropped_witness:
  "re_search SEARCH_PATTERN ''b: KEY(unknown).rgb;''
   \<and> replace_key [''a'' \<mapsto> Tuple [255, 0, 0]] ''b: KEY(unknown).rgb;'' = Inl (UnknownKey ''unknown'')
   \<and> Error 2 ''theme.css'' (UnknownKey ''unknown'')
        \<in> set (snd (try_replace_key_in_theme [''a'' \<mapsto> Tuple [255, 0, 0]]
             [''a: KEY(a).rgb;'', ''b: KEY(unknown).rgb;'', ''c''] ''theme.css'' ''|''))
   \<and> fst (try_replace_key_in_theme [''a'' \<mapsto> Tuple [255, 0, 0]]
             [''a: KEY(a).rgb;'', ''b: KEY(unknown).rgb;'', ''c''] ''theme.css'' ''|'')
       = ''a: rgb(255,0,0);|c|''"
proof -
  have s: "re_search SEARCH_PATTERN ''b: KEY(unknown).rgb;''" by code_simp
  have r: "replace_key [''a'' \<mapsto> Tuple [255, 0, 0]] ''b: KEY(unknown).rgb;''
             = Inl (UnknownKey ''unknown'')" by code_simp
  have 1: "fst (try_replace_key_in_theme [''a'' \<mapsto> Tuple [255, 0, 0]]
             [''a: KEY(a).rgb;''] ''theme.css'' ''|'') = ''a: rgb(255,0,0);|''" by code_simp
  have 2: "fst (try_replace_key_in_theme [''a'' \<mapsto> Tuple [255, 0, 0]]
             [''c''] ''theme.css'' ''|'') = ''c|''" by code_simp
  note d = failed_line_is_dropped [OF s r, of "[''a: KEY(a).rgb;'']" "''theme.css''" "[''c'']" "''|''"]
  have e: "Error 2 ''theme.css'' (UnknownKey ''unknown'')
        \<in> set (snd (try_replace_key_in_theme [''a'' \<mapsto> Tuple [255, 0, 0]]
             [''a: KEY(a).rgb;'', ''b: KEY(unknown).rgb;'', ''c''] ''theme.css'' ''|''))"
    using d [THEN conjunct1] by (simp add: numeral_2_eq_2)
  have "fst (try_replace_key_in_theme [''a'' \<mapsto> Tuple [255, 0, 0]]
             [''a: KEY(a).rgb;'', ''b: KEY(unknown).rgb;'', ''c''] ''theme.css'' ''|'')
       = ''a: rgb(255,0,0);|'' @ ''c|''"
    using d [THEN conjunct2] unfolding 1 2 by simp
  then have o: "fst (try_replace_key_in_theme [''a'' \<mapsto> Tuple [255, 0, 0]]
             [''a: KEY(a).rgb;'', ''b: KEY(unknown).rgb;'', ''c''] ''theme.css'' ''|'')
       = ''a: rgb(255,0,0);|c|''" by simp
  from s r e o show ?thesis by blast
qed

text \<open>
  The line \<^verbatim>\<open>KEY(unknown).rgb\<close> under a palette without the key \<open>unknown\<close>: the
  failure is reported for line 1, and the output is empty, so the original line is not
  in it.
\<close>

theorem failed_line_not_preserved:
  "re_search SEARCH_PATTERN ''KEY(unknown).rgb''
   \<and> replace_key [''a'' \<mapsto> Tuple [255, 0, 0]] ''KEY(unknown).rgb'' = Inl (UnknownKey ''unknown'')
   \<and> try_replace_key_in_theme [''a'' \<mapsto> Tuple [255, 0, 0]] [''KEY(unknown).rgb''] ''theme.css'' ''''
       = ('''', [Error 1 ''theme.css'' (UnknownKey ''unknown'')])"
  by code_simp

subsection \<open>The tokens of a line\<close>

text \<open>Substitution fails as soon as one token fails, with the failure of the first
  such token.\<close>

lemma re_sub_first_failure:
  assumes "tokens re s = ms @ m # rest"
    and "\<forall>x\<in>set ms. \<exists>t. repl x = Inr t" and "repl m = Inl e"
  shows "re_sub re repl s = Inl e"
  using assms
proof (induction re repl s arbitrary: ms rule: re_sub.induct)
  case (1 re repl s)
  show ?case
  proof (cases "match_at re s")
    case None
    show ?thesis
    proof (cases s)
      case Nil
      with None "1.prems"(1) show ?thesis by (simp add: tokens.simps [of re "[]"])
    next
      case (Cons c cs)
      with None "1.prems"(1) have "tokens re cs = ms @ m # rest"
        by (simp add: tokens.simps [of re "c # cs"])
      from "1.IH"(1) [OF None Cons this "1.prems"(2,3)]
      show ?thesis using None Cons by (simp add: re_sub.simps [of re repl "c # cs"])
    qed
  next
    case (Some rg)
    obtain r g where rg: "rg = (r, g)" by (cases rg)
    let ?tl = "if length r < length s then tokens re r
               else (case s of [] \<Rightarrow> [] | c # cs \<Rightarrow> tokens re cs)"
    have tk: "tokens re s = g # ?tl"
      using Some rg by (simp add: tokens.simps [of re s])
    show ?thesis
    proof (cases ms)
      case Nil
      with tk "1.prems"(1) have "g = m" by simp
      with "1.prems"(3) Some rg show ?thesis by (simp add: re_sub.simps [of re repl s])
    next
      case (Cons x ms')
      with tk "1.prems"(1) have gx: "g = x" and tl: "?tl = ms' @ m # rest" by simp_all
      from "1.prems"(2) Cons gx obtain t where t: "repl g = Inr t" by auto
      from "1.prems"(2) Cons have ok: "\<forall>x\<in>set ms'. \<exists>t. repl x = Inr t" by simp
      show ?thesis
      proof (cases "length r < length s")
        case True
        with tl have "tokens re r = ms' @ m # rest" by simp
        from "1.IH"(2) [OF Some rg [symmetric] t True this ok "1.prems"(3)]
        show ?thesis using Some rg t True by (simp add: re_sub.simps [of re repl s])
      next
        case False
        show ?thesis
        proof (cases s)
          case Nil
          with False tl show ?thesis by simp
        next
          case (Cons c cs)
          with False tl have "tokens re cs = ms' @ m # rest" by simp
          from "1.IH"(3) [OF Some rg [symmetric] t False Cons this ok "1.prems"(3)]
          show ?thesis using Some rg t False Cons
            by (simp add: re_sub.simps [of re repl "c # cs"])
        qed
      qed
    qed
  qed
qed

lemma re_sub_some_failure:
  assumes "m \<in> set (tokens re s)" and "repl m = Inl e"
  shows "\<exists>e'. re_sub re repl s = Inl e'"
proof -
  from assms have "\<exists>x\<in>set (tokens re s). \<exists>e. repl x = Inl e" by blast
  from split_list_first_prop [OF this]
  obtain ms x rest where sp: "tokens re s = ms @ x # rest"
    and x: "\<exists>e. repl x = Inl e" and pre: "\<forall>y\<in>set ms. \<not> (\<exists>e. repl y = Inl e)"
    by blast
  from x obtain e' where e': "repl x = Inl e'" by blast
  have "\<forall>y\<in>set ms. \<exists>t. repl y = Inr t"
  proof
    fix y assume "y \<in> set ms"
    with pre have "\<not> (\<exists>e. repl y = Inl e)" by blast
    then show "\<exists>t. repl y = Inr t" by (cases "repl y") auto
  qed
  from re_sub_first_failure [OF sp this e'] show ?thesis by blast
qed

lemma tokens_imp_search: "tokens re s \<noteq> [] \<Longrightarrow> re_search re s"
proof (induction s)
  case Nil
  then show ?case by (auto simp: tokens.simps [of re "[]"] split: option.splits)
next
  case (Cons c cs)
  show ?case
  proof (cases "match_at re (c # cs)")
    case None
    with Cons.prems have "tokens re cs \<noteq> []" by (simp add: tokens.simps [of re "c # cs"])
    with Cons.IH show ?thesis by simp
  next
    case (Some a)
    then show ?thesis by simp
  qed
qed

text \<open>Where the token pattern matches, the pattern of the line loop's test matches
  too: what stands between \<^verbatim>\<open>KEY(\<close> and the closing parenthesis of a token holds no
  closing parenthesis.\<close>

lemma many_prefix:
  "r \<in> set (many k s) \<Longrightarrow> \<exists>w. s = w @ r \<and> (\<forall>c\<in>set w. in_class k c)"
proof (induction s)
  case Nil
  then show ?case by simp
next
  case (Cons c cs)
  show ?case
  proof (cases "r = c # cs")
    case True
    then show ?thesis by simp
  next
    case False
    with Cons.prems have ic: "in_class k c" and "r \<in> set (many k cs)"
      by (auto split: if_splits)
    with Cons.IH obtain w where "cs = w @ r" and "\<forall>c\<in>set w. in_class k c" by blast
    with ic have "c # cs = (c # w) @ r \<and> (\<forall>x\<in>set (c # w). in_class k x)" by simp
    then show ?thesis by blast
  qed
qed

lemma many_self: "s \<in> set (many k s)"
  by (cases s) auto

lemma many_complete:
  "\<forall>c\<in>set w. in_class k c \<Longrightarrow> r \<in> set (many k (w @ r))"
  by (induction w) (auto simp: many_self)

lemma lower_char_close: "lower_char x = CHR '')'' \<Longrightarrow> x = CHR '')''"
proof (rule ccontr)
  assume l: "lower_char x = CHR '')''" and n: "x \<noteq> CHR '')''"
  then have up: "is_upper x \<or> (192 \<le> code x \<and> code x \<le> 222 \<and> code x \<noteq> 215)"
    by (auto simp: lower_char_def split: if_splits)
  then have "lower_char x = char_of (code x + 32)" by (simp add: lower_char_def)
  then have "code (lower_char x) = (code x + 32) mod 256"
    by (simp add: code_def)
  moreover from up have "97 \<le> code x + 32" and "code x + 32 < 256"
    by (auto simp: is_upper_def)
  ultimately have "97 \<le> code (lower_char x)" by simp
  with l show False by (simp add: code_def)
qed

lemma consumed_no_close:
  "no_close re \<Longrightarrow> (r, g') \<in> set (rmatch re (s, g))
     \<Longrightarrow> \<exists>w. s = w @ r \<and> CHR '')'' \<notin> set w"
proof (induction re arbitrary: s g r g')
  case Eps
  then show ?case by simp
next
  case (Lit c)
  then obtain x where s: "s = x # r" and lx: "lower_char x = lower_char c"
    by (auto split: list.splits if_splits)
  have lc: "lower_char (CHR '')'') = CHR '')''" by code_simp
  from Lit.prems(1) have "lower_char c \<noteq> CHR '')''" by simp
  with lx have "lower_char x \<noteq> CHR '')''" by simp
  with lc have "x \<noteq> CHR '')''" by metis
  with s have "s = [x] @ r \<and> CHR '')'' \<notin> set [x]" by simp
  then show ?case by blast
next
  case (Many k)
  then have "r \<in> set (many k s)" by auto
  from many_prefix [OF this] obtain w where "s = w @ r" and "\<forall>c\<in>set w. in_class k c" by blast
  with Many.prems(1) show ?case by auto
next
  case (Many1 k)
  then have "r \<in> set (butlast (many k s))" by auto
  then have "r \<in> set (many k s)" by (rule in_set_butlastD)
  from many_prefix [OF this] obtain w where "s = w @ r" and "\<forall>c\<in>set w. in_class k c" by blast
  with Many1.prems(1) show ?case by auto
next
  case (Cat a b)
  from Cat.prems(2) obtain y where y: "y \<in> set (rmatch a (s, g))"
    and r: "(r, g') \<in> set (rmatch b y)" by auto
  obtain r1 g1 where y1: "y = (r1, g1)" by (cases y)
  from Cat.IH(1) [of r1 g1 s g] Cat.prems(1) y y1
  obtain w1 where w1: "s = w1 @ r1" "CHR '')'' \<notin> set w1" by auto
  from Cat.IH(2) [of r g' r1 g1] Cat.prems(1) r y1
  obtain w2 where w2: "r1 = w2 @ r" "CHR '')'' \<notin> set w2" by auto
  from w1 w2 have "s = (w1 @ w2) @ r \<and> CHR '')'' \<notin> set (w1 @ w2)" by simp
  then show ?case by blast
next
  case (Opt a)
  from Opt.prems(2) have "(r, g') \<in> set (rmatch a (s, g)) \<or> (r, g') = (s, g)" by auto
  then show ?case
  proof
    assume "(r, g') \<in> set (rmatch a (s, g))"
    with Opt.IH Opt.prems(1) show ?thesis by simp
  next
    assume "(r, g') = (s, g)"
    then show ?thesis by simp
  qed
next
  case (Grp n a)
  from Grp.prems(2) obtain g'' where "(r, g'') \<in> set (rmatch a (s, g))" by auto
  with Grp.IH Grp.prems(1) show ?case by simp
qed

lemma cat_memE:
  assumes "z \<in> set (rmatch (Cat a b) st)"
  obtains y where "y \<in> set (rmatch a st)" and "z \<in> set (rmatch b y)"
  using assms by auto

lemma cat_memI:
  "y \<in> set (rmatch a st) \<Longrightarrow> z \<in> set (rmatch b y) \<Longrightarrow> z \<in> set (rmatch (Cat a b) st)"
  by auto

lemma key_match_search:
  assumes "match_at KEY_PATTERN s \<noteq> None"
  shows "match_at SEARCH_PATTERN s \<noteq> None"
proof -
  let ?K = "Lit (CHR ''K'')" and ?E = "Lit (CHR ''E'')" and ?Y = "Lit (CHR ''Y'')"
  let ?L = "Lit (CHR ''('')" and ?R = "Lit (CHR '')'')"
  let ?G = "Grp 1 (Many1 Word)"
  let ?O = "Opt (cat [Lit (CHR '',''), Many Space, Grp 2 number])"
  obtain T where kp:
    "KEY_PATTERN = Cat ?K (Cat ?E (Cat ?Y (Cat ?L (Cat ?G (Cat ?O (Cat ?R T))))))"
    by (simp add: KEY_PATTERN_def cat_def)
  have sp: "SEARCH_PATTERN
      = Cat ?K (Cat ?E (Cat ?Y (Cat ?L (Cat (Many NotClose) (Cat ?R Eps)))))"
    by (simp add: SEARCH_PATTERN_def cat_def)
  from assms have "rmatch KEY_PATTERN (s, no_groups) \<noteq> []"
    by (auto simp: match_at_def split: list.splits)
  then obtain z where z: "z \<in> set (rmatch KEY_PATTERN (s, no_groups))"
    by (cases "rmatch KEY_PATTERN (s, no_groups)") auto
  from z [unfolded kp] obtain s1 where 1: "s1 \<in> set (rmatch ?K (s, no_groups))"
    and z1: "z \<in> set (rmatch (Cat ?E (Cat ?Y (Cat ?L (Cat ?G (Cat ?O (Cat ?R T)))))) s1)"
    by (rule cat_memE)
  from z1 obtain s2 where 2: "s2 \<in> set (rmatch ?E s1)"
    and z2: "z \<in> set (rmatch (Cat ?Y (Cat ?L (Cat ?G (Cat ?O (Cat ?R T))))) s2)"
    by (rule cat_memE)
  from z2 obtain s3 where 3: "s3 \<in> set (rmatch ?Y s2)"
    and z3: "z \<in> set (rmatch (Cat ?L (Cat ?G (Cat ?O (Cat ?R T)))) s3)"
    by (rule cat_memE)
  from z3 obtain s4 where 4: "s4 \<in> set (rmatch ?L s3)"
    and z4: "z \<in> set (rmatch (Cat ?G (Cat ?O (Cat ?R T))) s4)"
    by (rule cat_memE)
  from z4 obtain s5 where 5: "s5 \<in> set (rmatch ?G s4)"
    and z5: "z \<in> set (rmatch (Cat ?O (Cat ?R T)) s5)"
    by (rule cat_memE)
  from z5 obtain s6 where 6: "s6 \<in> set (rmatch ?O s5)"
    and z6: "z \<in> set (rmatch (Cat ?R T) s6)"
    by (rule cat_memE)
  from z6 obtain s7 where 7: "s7 \<in> set (rmatch ?R s6)"
    by (rule cat_memE)
  obtain t4 g4 where s4: "s4 = (t4, g4)" by (cases s4)
  obtain t6 g6 where s6: "s6 = (t6, g6)" by (cases s6)
  obtain t7 g7 where s7: "s7 = (t7, g7)" by (cases s7)
  have nc: "no_close (Cat ?G ?O)" by code_simp
  from 5 6 have "s6 \<in> set (rmatch (Cat ?G ?O) s4)" by (rule cat_memI)
  with s4 s6 have "(t6, g6) \<in> set (rmatch (Cat ?G ?O) (t4, g4))" by simp
  from consumed_no_close [OF nc this]
  obtain w where w: "t4 = w @ t6" "CHR '')'' \<notin> set w" by auto
  from 7 s6 s7 obtain x where x: "t6 = x # t7" "lower_char x = lower_char (CHR '')'')"
    by (auto split: list.splits if_splits)
  have "lower_char (CHR '')'') = CHR '')''" by code_simp
  with x lower_char_close have t6: "t6 = CHR '')'' # t7" by auto
  from w have "\<forall>c\<in>set w. in_class NotClose c" by auto
  from many_complete [OF this, of t6] w
  have m: "(t6, g4) \<in> set (rmatch (Many NotClose) s4)" by (simp add: s4)
  from t6 have "(t7, g4) \<in> set (rmatch ?R (t6, g4))" by simp
  moreover have "(t7, g4) \<in> set (rmatch Eps (t7, g4))" by simp
  ultimately have "(t7, g4) \<in> set (rmatch (Cat ?R Eps) (t6, g4))" by (rule cat_memI)
  with m have "(t7, g4) \<in> set (rmatch (Cat (Many NotClose) (Cat ?R Eps)) s4)"
    by (rule cat_memI)
  with 4 have "(t7, g4) \<in> set (rmatch (Cat ?L (Cat (Many NotClose) (Cat ?R Eps))) s3)"
    by (rule cat_memI)
  with 3 have "(t7, g4)
      \<in> set (rmatch (Cat ?Y (Cat ?L (Cat (Many NotClose) (Cat ?R Eps)))) s2)"
    by (rule cat_memI)
  with 2 have "(t7, g4)
      \<in> set (rmatch (Cat ?E (Cat ?Y (Cat ?L (Cat (Many NotClose) (Cat ?R Eps))))) s1)"
    by (rule cat_memI)
  with 1 have "(t7, g4) \<in> set (rmatch SEARCH_PATTERN (s, no_groups))"
    unfolding sp by (rule cat_memI)
  then have "rmatch SEARCH_PATTERN (s, no_groups) \<noteq> []" by auto
  then show ?thesis
    by (simp add: match_at_def split: list.splits)
qed

lemma key_search_imp_search:
  "re_search KEY_PATTERN s \<Longrightarrow> re_search SEARCH_PATTERN s"
proof (induction s)
  case Nil
  then have "match_at KEY_PATTERN [] \<noteq> None" by simp
  then have "match_at SEARCH_PATTERN [] \<noteq> None" by (rule key_match_search)
  then show ?case by simp
next
  case (Cons c cs)
  from Cons.prems have "match_at KEY_PATTERN (c # cs) \<noteq> None \<or> re_search KEY_PATTERN cs"
    by simp
  then show ?case
  proof
    assume "match_at KEY_PATTERN (c # cs) \<noteq> None"
    then have "match_at SEARCH_PATTERN (c # cs) \<noteq> None" by (rule key_match_search)
    then show ?thesis by simp
  next
    assume "re_search KEY_PATTERN cs"
    then have "re_search SEARCH_PATTERN cs" by (rule Cons.IH)
    then show ?thesis by simp
  qed
qed

lemma tokens_imp_token_syntax:
  assumes "m \<in> set (tokens KEY_PATTERN l)"
  shows "re_search SEARCH_PATTERN l"
proof -
  from assms have "tokens KEY_PATTERN l \<noteq> []" by auto
  then have "re_search KEY_PATTERN l" by (rule tokens_imp_search)
  then show ?thesis by (rule key_search_imp_search)
qed

lemma loop_split:
  "fst (try_replace_key_in_theme colors (xs @ l # ys) filename end')
     = fst (try_replace_key_in_theme colors xs filename end') @ line_output colors end' l
       @ fst (try_replace_key_in_theme colors ys filename end')"
  by (simp add: output_concat)

lemma loop_split_diags:
  "set (line_diags colors filename end' (length xs) l)
     \<subseteq> set (snd (try_replace_key_in_theme colors (xs @ l # ys) filename end'))"
  by (auto simp: diags_concat enumerate_append_eq)

lemma failing_line:
  assumes "re_search SEARCH_PATTERN l" and "replace_key colors l = Inl e"
  shows "Error (length xs + 1) filename e
           \<in> set (snd (try_replace_key_in_theme colors (xs @ l # ys) filename end'))"
    and "fst (try_replace_key_in_theme colors (xs @ l # ys) filename end')
           = fst (try_replace_key_in_theme colors xs filename end')
             @ fst (try_replace_key_in_theme colors ys filename end')"
proof -
  have "line_diags colors filename end' (length xs) l = [Error (length xs + 1) filename e]"
    using assms by (simp add: line_diags_def)
  with loop_split_diags [of colors filename end' xs l ys]
  show "Error (length xs + 1) filename e
           \<in> set (snd (try_replace_key_in_theme colors (xs @ l # ys) filename end'))"
    by simp
  have "line_output colors end' l = []" using assms by (simp add: line_output_def)
  with loop_split [of colors xs l ys filename end']
  show "fst (try_replace_key_in_theme colors (xs @ l # ys) filename end')
           = fst (try_replace_key_in_theme colors xs filename end')
             @ fst (try_replace_key_in_theme colors ys filename end')"
    by simp
qed

lemma first_token_failure:
  assumes "tokens KEY_PATTERN l = ms @ m # rest"
    and "\<forall>x\<in>set ms. \<exists>t. remap_key colors x = Inr t" and "remap_key colors m = Inl e"
  shows "replace_key colors l = Inl e"
  unfolding replace_key_def
  using assms by (rule re_sub_first_failure [where repl = "remap_key colors"])

lemma token_failure_drops_line:
  assumes "m \<in> set (tokens KEY_PATTERN l)" and "remap_key colors m = Inl e"
  shows "\<exists>e'. replace_key colors l = Inl e'
           \<and> Error (length xs + 1) filename e'
               \<in> set (snd (try_replace_key_in_theme colors (xs @ l # ys) filename end'))
           \<and> fst (try_replace_key_in_theme colors (xs @ l # ys) filename end')
               = fst (try_replace_key_in_theme colors xs filename end')
                 @ fst (try_replace_key_in_theme colors ys filename end')"
proof -
  from re_sub_some_failure [where repl = "remap_key colors", OF assms]
  obtain e' where e': "replace_key colors l = Inl e'" unfolding replace_key_def by blast
  from assms(1) have "re_search SEARCH_PATTERN l" by (rule tokens_imp_token_syntax)
  from failing_line [OF this e'] e' show ?thesis by blast
qed

subsection \<open>Resolving a token\<close>

lemma default_entry: "FIRST_MODIFIERS ''DEFAULT'' = Some return_rgba_string"
  by (simp add: FIRST_MODIFIERS_def)

lemma default_formatter_rgba:
  "default_formatter v opacity = return_rgba_string v opacity default_scond_mod"
  by (simp add: default_formatter_def default_entry)

lemma rgba_unmodified:
  assumes "return_rgba_string v opacity default_scond_mod = Inr s"
  shows "\<exists>r g b. item_str v 0 = Inr r \<and> item_str v 1 = Inr g \<and> item_str v 2 = Inr b
           \<and> s = ''rgba('' @ r @ '','' @ g @ '','' @ b @ '','' @ float_repr opacity @ '')''"
  using assms
  by (auto simp: return_rgba_string_def check_and_apply_second_modificator_def
      default_scond_mod_def and_then_def split: sum.splits)

text \<open>
  Claim C10. For every token that resolves and whose first modifier is absent or is not a
  key of \<^verbatim>\<open>FIRST_MODIFIERS\<close>, the result is the string \<open>rgba(r,g,b,opacity)\<close> that
  \<^verbatim>\<open>return_rgba_string\<close> builds from the palette value as stored, the token's normalised
  opacity and the default (empty) second modifier: a second modifier parsed from the token
  is not applied.
\<close>

theorem default_path_is_plain_rgba:
  assumes "remap_key colors m = Inr s"
    and "\<forall>fm. present (group3 m) = Some fm \<longrightarrow> FIRST_MODIFIERS (lower fm) = None"
  shows "\<exists>k v opacity r g b.
           group1 m = Some k \<and> colors (lower k) = Some v
           \<and> normalize_opacity (group2 m) = Inr opacity
           \<and> return_rgba_string v opacity default_scond_mod = Inr s
           \<and> item_str v 0 = Inr r \<and> item_str v 1 = Inr g \<and> item_str v 2 = Inr b
           \<and> s = ''rgba('' @ r @ '','' @ g @ '','' @ b @ '','' @ float_repr opacity @ '')''"
proof -
  from assms(1) obtain k where k: "group1 m = Some k"
    by (auto simp: remap_key_def split: option.splits)
  from assms(1) k obtain v where v: "colors (lower k) = Some v" and tv: "truthy v"
    by (auto simp: remap_key_def Let_def split: option.splits if_splits)
  from assms(1) k v tv obtain opacity where o: "normalize_opacity (group2 m) = Inr opacity"
    by (auto simp: remap_key_def Let_def and_then_def split: sum.splits)
  from assms(1) k v tv o obtain sm where sm: "parse_second_modifier m = Inr sm"
    by (auto simp: remap_key_def Let_def and_then_def split: sum.splits)
  have "return_rgba_string v opacity default_scond_mod = Inr s"
  proof (cases "present (group3 m)")
    case None
    with assms(1) k v tv o sm show ?thesis
      by (simp add: remap_key_def Let_def and_then_def default_formatter_rgba split: if_splits)
  next
    case (Some fm)
    with assms(2) have "FIRST_MODIFIERS (lower fm) = None" by simp
    with Some assms(1) k v tv o sm show ?thesis
      by (simp add: remap_key_def Let_def and_then_def default_formatter_rgba split: if_splits)
  qed
  with rgba_unmodified [OF this] k v o show ?thesis by blast
qed

theorem default_path_is_plain_rgba_witness:
  "tokens KEY_PATTERN ''c: KEY(A, 33.3).foo.add(2,1);''
     = [\<lparr>group1 = Some ''A'', group2 = Some ''33.3'', group3 = Some ''.foo'',
         group4 = Some ''.add(2,1)'', group5 = Some ''(2,1)''\<rparr>]
   \<and> remap_key [''a'' \<mapsto> Tuple [10, 20, 30]]
      \<lparr>group1 = Some ''A'', group2 = Some ''33.3'', group3 = Some ''.foo'',
       group4 = Some ''.add(2,1)'', group5 = Some ''(2,1)''\<rparr>
       = Inr ''rgba(10,20,30,0.33299999999999996)''
   \<and> present (Some ''.foo'') = Some ''.foo'' \<and> FIRST_MODIFIERS (lower ''.foo'') = None
   \<and> parse_second_modifier
      \<lparr>group1 = Some ''A'', group2 = Some ''33.3'', group3 = Some ''.foo'',
       group4 = Some ''.add(2,1)'', group5 = Some ''(2,1)''\<rparr>
       = Inr \<lparr>pos = 2, mod' = 1, type' = Some ''add''\<rparr>
   \<and> normalize_opacity (Some ''33.3'') = Inr (1499698675914375 / 4503599627370496)
   \<and> return_rgba_string (Tuple [10, 20, 30]) (1499698675914375 / 4503599627370496)
        default_scond_mod = Inr ''rgba(10,20,30,0.33299999999999996)''
   \<and> try_replace_key_in_theme [''a'' \<mapsto> Tuple [10, 20, 30]]
        [''c: KEY(A, 33.3).foo.add(2,1);'', ''d: KEY(a, 50);''] ''t.css'' ''|''
       = (''c: rgba(10,20,30,0.33299999999999996);|d: rgba(10,20,30,0.5);|'', [])"
proof -
  let ?m = "\<lparr>group1 = Some ''A'', group2 = Some ''33.3'', group3 = Some ''.foo'',
       group4 = Some ''.add(2,1)'', group5 = Some ''(2,1)''\<rparr>"
  let ?c = "[''a'' \<mapsto> Tuple [10, 20, 30]]"
  let ?o = "1499698675914375 / 4503599627370496 :: rat"
  have tk: "tokens KEY_PATTERN ''c: KEY(A, 33.3).foo.add(2,1);'' = [?m]" by code_simp
  have r: "remap_key ?c ?m = Inr ''rgba(10,20,30,0.33299999999999996)''" by code_simp
  have p: "present (Some ''.foo'') = Some ''.foo''" by code_simp
  have f: "FIRST_MODIFIERS (lower ''.foo'') = None" by code_simp
  have s: "parse_second_modifier ?m = Inr \<lparr>pos = 2, mod' = 1, type' = Some ''add''\<rparr>"
    by code_simp
  have no: "normalize_opacity (Some ''33.3'') = Inr ?o" by code_simp
  have tr: "try_replace_key_in_theme ?c
        [''c: KEY(A, 33.3).foo.add(2,1);'', ''d: KEY(a, 50);''] ''t.css'' ''|''
       = (''c: rgba(10,20,30,0.33299999999999996);|d: rgba(10,20,30,0.5);|'', [])"
    by code_simp
  have h: "\<forall>fm. present (group3 ?m) = Some fm \<longrightarrow> FIRST_MODIFIERS (lower fm) = None"
    using p f by simp
  have la: "lower ''A'' = ''a''" by code_simp
  from default_path_is_plain_rgba [OF r h]
  obtain k v opacity where k: "group1 ?m = Some k"
    and v: "?c (lower k) = Some v"
    and o: "normalize_opacity (group2 ?m) = Inr opacity"
    and rs: "return_rgba_string v opacity default_scond_mod
           = Inr ''rgba(10,20,30,0.33299999999999996)''"
    by blast
  from k have "k = ''A''" by simp
  with v la have v': "v = Tuple [10, 20, 30]" by simp
  from o have "normalize_opacity (Some ''33.3'') = Inr opacity" by simp
  then have "Inr ?o = (Inr opacity :: error + rat)" by (rule trans [OF no [symmetric]])
  then have o': "?o = opacity" by (rule Inr_inject)
  have "return_rgba_string (Tuple [10, 20, 30]) ?o default_scond_mod
      = Inr ''rgba(10,20,30,0.33299999999999996)''"
    unfolding o' using rs unfolding v' .
  with tk r p f s no tr show ?thesis by blast
qed








text \<open>
  Claim C5, as the code has it. Let a token of a line have a key that, in lower case, is
  \<^verbatim>\<open>wallpaper\<close> or \<^verbatim>\<open>w\<close> and is in the palette with a non-empty value, an opacity in
  range and a second modifier, if any, that parses. Resolving the token raises the
  wallpaper conflict exactly when the normalised opacity differs from 1.0 or a first
  modifier is present; otherwise the token resolves to the default rgba string of the
  stored value. The conflict is fatal to the line: rewriting the line fails, the error is
  logged with the 1-based line number and the source label, and the line adds nothing to
  the output; the line's failure is the wallpaper conflict when no earlier token of the
  line fails.
\<close>

theorem wallpaper_conflict:
  assumes "m \<in> set (tokens KEY_PATTERN l)"
    and "group1 m = Some k" and "lower k = ''wallpaper'' \<or> lower k = ''w''"
    and "colors (lower k) = Some v" and "truthy v"
    and "normalize_opacity (group2 m) = Inr opacity"
    and "parse_second_modifier m = Inr sm"
  shows "remap_key colors m
           = (if opacity \<noteq> 1 \<or> present (group3 m) \<noteq> None then Inl WallpaperModifierConflict
              else return_rgba_string v opacity default_scond_mod)
         \<and> (opacity \<noteq> 1 \<or> present (group3 m) \<noteq> None \<longrightarrow>
              (\<exists>e. replace_key colors l = Inl e
                 \<and> Error (length xs + 1) filename e
                     \<in> set (snd (try_replace_key_in_theme colors (xs @ l # ys) filename end'))
                 \<and> fst (try_replace_key_in_theme colors (xs @ l # ys) filename end')
                     = fst (try_replace_key_in_theme colors xs filename end')
                       @ fst (try_replace_key_in_theme colors ys filename end'))
              \<and> (\<forall>ms rest. tokens KEY_PATTERN l = ms @ m # rest
                     \<and> (\<forall>x\<in>set ms. \<exists>t. remap_key colors x = Inr t)
                   \<longrightarrow> replace_key colors l = Inl WallpaperModifierConflict))"
proof -
  have r: "remap_key colors m
           = (if opacity \<noteq> 1 \<or> present (group3 m) \<noteq> None then Inl WallpaperModifierConflict
              else return_rgba_string v opacity default_scond_mod)"
    using assms(2-7)
    by (auto simp: remap_key_def Let_def and_then_def default_formatter_rgba)
  show ?thesis
  proof (cases "opacity \<noteq> 1 \<or> present (group3 m) \<noteq> None")
    case False
    with r show ?thesis by simp
  next
    case True
    with r have f: "remap_key colors m = Inl WallpaperModifierConflict" by simp
    note d = token_failure_drops_line [OF assms(1) f, of xs filename ys end']
    have "\<forall>ms rest. tokens KEY_PATTERN l = ms @ m # rest
                     \<and> (\<forall>x\<in>set ms. \<exists>t. remap_key colors x = Inr t)
                   \<longrightarrow> replace_key colors l = Inl WallpaperModifierConflict"
      using first_token_failure [OF _ _ f] by blast
    with r d True show ?thesis by simp
  qed
qed

theorem wallpaper_conflict_witness:
  "tokens KEY_PATTERN ''x: KEY(wallpaper, 50);''
     = [\<lparr>group1 = Some ''wallpaper'', group2 = Some ''50'', group3 = None,
         group4 = None, group5 = None\<rparr>]
   \<and> normalize_opacity (Some ''50'') = Inr (1 / 2)
   \<and> remap_key (hex_to_rgb_map [''wallpaper'' \<mapsto> ''/home/u/w.png''])
      \<lparr>group1 = Some ''wallpaper'', group2 = Some ''50'', group3 = None,
       group4 = None, group5 = None\<rparr> = Inl WallpaperModifierConflict
   \<and> replace_key (hex_to_rgb_map [''wallpaper'' \<mapsto> ''/home/u/w.png''])
        ''x: KEY(wallpaper, 50);'' = Inl WallpaperModifierConflict
   \<and> try_replace_key_in_theme (hex_to_rgb_map [''wallpaper'' \<mapsto> ''/home/u/w.png''])
        [''a'', ''x: KEY(wallpaper, 50);'', ''b''] ''t.css'' ''|''
       = (''a|b|'', [Error 2 ''t.css'' WallpaperModifierConflict])
   \<and> tokens KEY_PATTERN ''KEY(Wallpaper, 1)''
     = [\<lparr>group1 = Some ''Wallpaper'', group2 = Some ''1'', group3 = None,
         group4 = None, group5 = None\<rparr>]
   \<and> remap_key (hex_to_rgb_map [''wallpaper'' \<mapsto> ''/home/u/w.png''])
      \<lparr>group1 = Some ''Wallpaper'', group2 = Some ''1'', group3 = None,
       group4 = None, group5 = None\<rparr> = Inr ''rgba(/,h,o,1.0)''"
proof -
  let ?m = "\<lparr>group1 = Some ''wallpaper'', group2 = Some ''50'', group3 = None,
       group4 = None, group5 = None\<rparr>"
  let ?n = "\<lparr>group1 = Some ''Wallpaper'', group2 = Some ''1'', group3 = None,
       group4 = None, group5 = None\<rparr>"
  let ?c = "hex_to_rgb_map [''wallpaper'' \<mapsto> ''/home/u/w.png'']"
  let ?l = "''x: KEY(wallpaper, 50);''"
  let ?v = "Str ''/home/u/w.png''"
  have tk: "tokens KEY_PATTERN ?l = [?m]" by code_simp
  have tn: "tokens KEY_PATTERN ''KEY(Wallpaper, 1)'' = [?n]" by code_simp
  have no: "normalize_opacity (Some ''50'') = Inr (1 / 2)" by code_simp
  have n1: "normalize_opacity (Some ''1'') = Inr 1" by code_simp
  have tr: "try_replace_key_in_theme ?c [''a'', ?l, ''b''] ''t.css'' ''|''
              = (''a|b|'', [Error 2 ''t.css'' WallpaperModifierConflict])" by code_simp
  have rg: "return_rgba_string ?v 1 default_scond_mod = Inr ''rgba(/,h,o,1.0)''" by code_simp
  have lw: "lower ''wallpaper'' = ''wallpaper''" and lW: "lower ''Wallpaper'' = ''wallpaper''"
    by code_simp+
  have pv: "?c ''wallpaper'' = Some ?v" by code_simp
  have tv: "truthy ?v" by code_simp
  have ps: "parse_second_modifier ?m = Inr default_scond_mod"
    and pn: "parse_second_modifier ?n = Inr default_scond_mod" by code_simp+
  have 1: "?m \<in> set (tokens KEY_PATTERN ?l)" unfolding tk by simp
  have 2: "?n \<in> set (tokens KEY_PATTERN ''KEY(Wallpaper, 1)'')" unfolding tn by simp
  have g1: "group1 ?m = Some ''wallpaper''" and h1: "group1 ?n = Some ''Wallpaper''" by simp_all
  have lk: "lower ''wallpaper'' = ''wallpaper'' \<or> lower ''wallpaper'' = ''w''"
    and lK: "lower ''Wallpaper'' = ''wallpaper'' \<or> lower ''Wallpaper'' = ''w''"
    using lw lW by simp_all
  have pk: "?c (lower ''wallpaper'') = Some ?v" and pK: "?c (lower ''Wallpaper'') = Some ?v"
    using pv lw lW by simp_all
  have o: "normalize_opacity (group2 ?m) = Inr (1 / 2)"
    and o1: "normalize_opacity (group2 ?n) = Inr 1" using no n1 by simp_all
  note a = wallpaper_conflict [where colors = ?c and l = ?l, OF 1 g1 lk pk tv o ps]
  have cond: "(1 / 2 :: rat) \<noteq> 1 \<or> present (group3 ?m) \<noteq> None" by simp
  have a1: "remap_key ?c ?m = Inl WallpaperModifierConflict"
    using a [THEN conjunct1] cond by simp
  have first: "tokens KEY_PATTERN ?l = [] @ ?m # []
          \<and> (\<forall>x\<in>set []. \<exists>t. remap_key ?c x = Inr t)" using tk by simp
  have a2: "replace_key ?c ?l = Inl WallpaperModifierConflict"
    by (rule a [THEN conjunct2, THEN mp, OF cond, THEN conjunct2, rule_format, OF first])
  note b = wallpaper_conflict [where colors = ?c and l = "''KEY(Wallpaper, 1)''",
      OF 2 h1 lK pK tv o1 pn]
  have "present (group3 ?n) = None" by (simp add: present_def)
  then have b1: "remap_key ?c ?n = Inr ''rgba(/,h,o,1.0)''"
    using b [THEN conjunct1] rg by simp
  from tk tn no a1 a2 tr b1 show ?thesis by blast
qed

text \<open>
  The line \<^verbatim>\<open>KEY(wallpaper, 100)\<close> states an opacity and raises nothing: 100 is normalised to
  1.0, the value an absent opacity has, and the token resolves on the default path to the
  first three characters of the wallpaper path.
\<close>

theorem wallpaper_opacity_accepted:
  "match_at KEY_PATTERN ''KEY(wallpaper, 100)'' = Some ([],
      \<lparr>group1 = Some ''wallpaper'', group2 = Some ''100'', group3 = None,
       group4 = None, group5 = None\<rparr>)
   \<and> try_replace_key_in_theme (hex_to_rgb_map [''wallpaper'' \<mapsto> ''/home/u/w.png''])
        [''KEY(wallpaper, 100)''] ''t.css'' ''|'' = (''rgba(/,h,o,1.0)|'', [])"
  by code_simp

subsection \<open>Evaluations at the inputs where the code departs from its intent\<close>

text \<open>
  Claim C2 at the palette \<^verbatim>\<open>{a: (255, 0, 0)}\<close> and the line \<^verbatim>\<open>c: KEY(a).hsl;\<close>: the
  conversion gives (0, 1/2, 1), the call that follows it raises \<^verbatim>\<open>TypeError\<close>, and the
  line is reported and left out of the output; no \<^verbatim>\<open>hsl(...)\<close> string is produced.
\<close>

theorem hsl_raises_type_error:
  "rgb_to_hls (Tuple [255, 0, 0]) = Inr (0, 1 / 2, 1)
   \<and> return_hsl_string (Tuple [255, 0, 0]) 1 default_scond_mod = Inl TypeError
   \<and> replace_key [''a'' \<mapsto> Tuple [255, 0, 0]] ''KEY(a).hsl'' = Inl TypeError
   \<and> try_replace_key_in_theme [''a'' \<mapsto> Tuple [255, 0, 0]] [''c: KEY(a).hsl;'']
        ''t.css'' ''|'' = ([], [Error 1 ''t.css'' TypeError])"
  by code_simp

lemma normalize_opacity_in_range:
  assumes "s \<noteq> []" and "py_float s = Some v"
  shows "1 < v \<and> v \<le> 100 \<Longrightarrow> normalize_opacity (Some s) = Inr (fdiv v 100)"
    and "0 \<le> v \<and> v \<le> 1 \<Longrightarrow> normalize_opacity (Some s) = Inr v"
    and "v < 0 \<or> 100 < v \<Longrightarrow> normalize_opacity (Some s) = Inl InvalidOpacity"
  using assms by (auto simp: normalize_opacity_def present_def)

text \<open>
  Claim C3 at the palette \<^verbatim>\<open>{a: (10, 20, 30)}\<close> and the line \<^verbatim>\<open>c: KEY(a, 150).rgb;\<close>: the
  opacity 150 is rejected, the exception leaves \<^verbatim>\<open>remap_key\<close>, and the line is reported
  and left out of the output; the token does not resolve with opacity 1.0, which would
  give what \<^verbatim>\<open>KEY(a).rgb\<close> gives.
\<close>

theorem opacity_over_100_is_fatal:
  "normalize_opacity (Some ''150'') = Inl InvalidOpacity
   \<and> replace_key [''a'' \<mapsto> Tuple [10, 20, 30]] ''KEY(a, 150).rgb'' = Inl InvalidOpacity
   \<and> try_replace_key_in_theme [''a'' \<mapsto> Tuple [10, 20, 30]] [''c: KEY(a, 150).rgb;'']
        ''t.css'' ''|'' = ([], [Error 1 ''t.css'' InvalidOpacity])
   \<and> replace_key [''a'' \<mapsto> Tuple [10, 20, 30]] ''KEY(a).rgb'' = Inr ''rgb(10,20,30)''"
  by code_simp

end
